theory Spec2Isabelle
  imports Complex_Main "HOL-Library.AList"
begin

section \<open>Speaker recognition server: enrollment, registry and matcher\<close>

text \<open>
  A shallow embedding of \<^verbatim>\<open>server.py\<close> (the \<^verbatim>\<open>/enroll\<close>, \<^verbatim>\<open>/predict\<close> and
  \<^verbatim>\<open>/delete-user\<close> handlers) and of \<^verbatim>\<open>migrate_existing.py\<close> (\<^verbatim>\<open>migrate_speaker\<close>).

  The program keeps all of its state in files. The model makes that state a record:
  the clip folders under \<^verbatim>\<open>uploads/enrollments/\<close>, the \<^verbatim>\<open>.npy\<close> files under
  \<^verbatim>\<open>embeddings/\<close> and the dictionary stored in \<^verbatim>\<open>embeddings/registry.json\<close>.
  Everything the handlers call outside the repository (werkzeug, ffmpeg, the voice
  encoder, the clock, the file system's failures) is a field of the record \<open>env\<close>,
  one value per call of a handler.

  Embeddings are numpy arrays of floats. They are modelled as lists of reals, so
  every statement about sums, means and comparisons below is about exact arithmetic;
  rounding is outside the model.
\<close>

subsection \<open>Configuration\<close>

definition REQUIRED_CLIPS :: nat where
  "REQUIRED_CLIPS = 4"

definition SIMILARITY_THRESHOLD :: real where
  "SIMILARITY_THRESHOLD = 75 / 100"

definition CLIPS_TO_USE :: nat where
  "CLIPS_TO_USE = 3"

subsection \<open>Data\<close>

type_synonym audio = string
type_synonym vec = "real list"

text \<open>
  A user's enrollment folder. The handlers only ever create files named
  \<^verbatim>\<open>clip_<n>.wav\<close> in it, so a folder is an association list from \<open>n\<close> to the
  contents of \<^verbatim>\<open>clip_<n>.wav\<close>; every file of the folder starts with \<^verbatim>\<open>clip_\<close>.
  A folder that does not exist and an empty folder are both \<open>[]\<close>.
\<close>

type_synonym folder = "(nat \<times> audio) list"

record entry =
  enrolled_date :: string
  clips_count :: nat
  embedding_file :: string
  migrated_from :: "string option"

text \<open>
  The file \<^verbatim>\<open>embeddings/registry.json\<close>. \<open>Parsed reg\<close>: the file holds the dictionary
  \<open>reg\<close>, in its iteration order (insertion order, which \<^verbatim>\<open>json.dump\<close> and
  \<^verbatim>\<open>json.load\<close> keep): assigning to a present key keeps its place, assigning to a new
  key appends, which is \<^const>\<open>AList.update\<close>. A file that does not exist is
  \<open>Parsed []\<close>, as \<^verbatim>\<open>load_registry\<close> reads it. \<open>Unparsable\<close>: the file is there and
  \<^verbatim>\<open>json.load\<close> raises on it, as on the empty or cut-off file that a failed
  \<^verbatim>\<open>save_registry\<close> leaves behind.
\<close>

datatype registry_file = Parsed "(string \<times> entry) list" | Unparsable

text \<open>\<open>embeddings u\<close> is the array in \<^verbatim>\<open>embeddings/<u>.npy\<close>.\<close>

record state =
  enrollments :: "string \<Rightarrow> folder"
  embeddings :: "string \<rightharpoonup> vec"
  registry_file :: registry_file

text \<open>The entries that the registry holds: none when the file cannot be parsed.\<close>

definition registry :: "state \<Rightarrow> (string \<times> entry) list" where
  "registry st = (case registry_file st of Parsed reg \<Rightarrow> reg | Unparsable \<Rightarrow> [])"

text \<open>\<^verbatim>\<open>load_registry()\<close>; \<open>None\<close> is the exception of \<^verbatim>\<open>json.load\<close>.\<close>

definition load_registry :: "state \<Rightarrow> (string \<times> entry) list option" where
  "load_registry st = (case registry_file st of Parsed reg \<Rightarrow> Some reg | Unparsable \<Rightarrow> None)"

record upload =
  filename :: string
  data :: audio

text \<open>
  What a write to a target path did. \<open>Write_failed None\<close>: the writer failed and the
  target path is as it was. \<open>Write_failed (Some p)\<close>: the writer failed after it had
  opened the target, which now holds \<open>p\<close>.
\<close>

datatype write_result = Written audio | Write_failed "audio option"

record env =
  secure_filename :: "string \<Rightarrow> string"
  save_direct :: "audio \<Rightarrow> write_result"
  save_temp :: bool
  ffmpeg :: "audio \<Rightarrow> write_result"
  extract_embedding :: "audio \<Rightarrow> vec option"
  now :: string
  registry_writable :: bool
  registry_truncated :: bool

text \<open>
  The fields of \<open>env\<close>:
  \<^item> \<open>secure_filename\<close>: werkzeug's function of that name;
  \<^item> \<open>save_direct d\<close>: what \<^verbatim>\<open>file_storage.save(target_wav_path)\<close> does with an upload
    of contents \<open>d\<close> (\<open>Written d\<close> when it succeeds);
  \<^item> \<open>save_temp\<close>: whether \<^verbatim>\<open>tempfile.mkstemp\<close> and the save to the temporary file succeed;
  \<^item> \<open>ffmpeg d\<close>: what \<^verbatim>\<open>ffmpeg -y -i temp ... target\<close> does on input \<open>d\<close>; \<open>Written w\<close>
    is return code 0 with \<open>w\<close> at the target, \<open>Write_failed\<close> any other return code
    or an exception of \<^verbatim>\<open>subprocess.run\<close>;
  \<^item> \<open>extract_embedding\<close>: the function of that name (\<^verbatim>\<open>preprocess_wav\<close> and the encoder),
    \<open>None\<close> when it catches an exception;
  \<^item> \<open>now\<close>: \<^verbatim>\<open>datetime.now().isoformat()\<close>;
  \<^item> \<open>registry_writable\<close>: whether \<^verbatim>\<open>save_registry\<close> succeeds;
  \<^item> \<open>registry_truncated\<close>: where a \<^verbatim>\<open>save_registry\<close> that does not succeed fails.
    \<open>False\<close>: \<^verbatim>\<open>open(REGISTRY_FILE, 'w')\<close> raises and the file is as it was. \<open>True\<close>:
    the file has been opened, which empties it, and the writing raises before the text
    is complete; what is left is empty or a cut-off JSON text.
  Other failures of the file system (of \<^verbatim>\<open>os.makedirs\<close>, \<^verbatim>\<open>os.listdir\<close>, \<^verbatim>\<open>np.save\<close>,
  \<^verbatim>\<open>np.load\<close>) are not modelled.
\<close>

text \<open>\<^verbatim>\<open>save_registry(registry)\<close>: whether it returned, and the state it leaves.\<close>

definition save_registry :: "env \<Rightarrow> (string \<times> entry) list \<Rightarrow> state \<Rightarrow> bool \<times> state" where
  "save_registry e reg st =
     (if registry_writable e then (True, st\<lparr>registry_file := Parsed reg\<rparr>)
      else if registry_truncated e then (False, st\<lparr>registry_file := Unparsable\<rparr>)
      else (False, st))"

datatype error =
    Username_required
  | Invalid_clip_number
  | Clip_number_out_of_range
  | No_audio_file
  | No_file_selected
  | Conversion_failed
  | No_embeddings_extracted
  | Failed_to_process_audio
  | User_not_found
  | Server_error

fun status_code :: "error \<Rightarrow> nat" where
  "status_code Username_required = 400"
| "status_code Invalid_clip_number = 400"
| "status_code Clip_number_out_of_range = 400"
| "status_code No_audio_file = 400"
| "status_code No_file_selected = 400"
| "status_code Conversion_failed = 400"
| "status_code No_embeddings_extracted = 500"
| "status_code Failed_to_process_audio = 500"
| "status_code User_not_found = 404"
| "status_code Server_error = 500"

text \<open>
  The specification's names for these: \<open>Conversion_failed\<close> is its TranscodeError,
  \<open>No_embeddings_extracted\<close> its InsufficientDataError, and \<open>Server_error\<close> (the
  handler's \<^verbatim>\<open>except Exception\<close>) is what a StorageError becomes.
\<close>

subsection \<open>Strings\<close>

text \<open>Characters are bytes; \<^verbatim>\<open>str.lower\<close>, \<^verbatim>\<open>str.strip\<close> and \<^verbatim>\<open>str.isdigit\<close> are
  modelled on ASCII.\<close>

definition lower_char :: "char \<Rightarrow> char" where
  "lower_char c =
     (case map_of (zip ''ABCDEFGHIJKLMNOPQRSTUVWXYZ'' ''abcdefghijklmnopqrstuvwxyz'') c of
        None \<Rightarrow> c
      | Some l \<Rightarrow> l)"

definition lower :: "string \<Rightarrow> string" where
  "lower s = map lower_char s"

definition is_space :: "char \<Rightarrow> bool" where
  "is_space c =
     (let n = (of_char c :: nat) in (9 \<le> n \<and> n \<le> 13) \<or> (28 \<le> n \<and> n \<le> 32))"

definition strip :: "string \<Rightarrow> string" where
  "strip s = rev (dropWhile is_space (rev (dropWhile is_space s)))"

definition isdigit :: "string \<Rightarrow> bool" where
  "isdigit s =
     (s \<noteq> [] \<and> list_all (\<lambda>c. 48 \<le> (of_char c :: nat) \<and> (of_char c :: nat) \<le> 57) s)"

definition int_of_digits :: "string \<Rightarrow> nat" where
  "int_of_digits s = foldl (\<lambda>n c. 10 * n + ((of_char c :: nat) - 48)) 0 s"

definition endswith :: "string \<Rightarrow> string \<Rightarrow> bool" where
  "endswith s suffix =
     (length suffix \<le> length s \<and> drop (length s - length suffix) s = suffix)"

text \<open>
  The extension computed at the head of \<^verbatim>\<open>save_uploaded_and_convert\<close>:
  \<^verbatim>\<open>'.' + name.rsplit('.', 1)[1].lower()\<close> when the name has a dot, \<^verbatim>\<open>''\<close> otherwise.
\<close>

definition ext_of :: "string \<Rightarrow> string" where
  "ext_of name =
     (if CHR ''.'' \<in> set name
      then CHR ''.'' # lower (rev (takeWhile (\<lambda>c. c \<noteq> CHR ''.'') (rev name)))
      else [])"

subsection \<open>Vectors\<close>

text \<open>
  \<^verbatim>\<open>np.dot\<close> of two one-dimensional arrays; it raises \<^verbatim>\<open>ValueError\<close> when their
  lengths differ (\<open>None\<close>).
\<close>

definition compute_similarity :: "vec \<Rightarrow> vec \<Rightarrow> real option" where
  "compute_similarity embedding1 embedding2 =
     (if length embedding1 = length embedding2
      then Some (sum_list (map2 (*) embedding1 embedding2))
      else None)"

text \<open>
  \<^verbatim>\<open>np.mean(embeddings, axis=0)\<close> on a list of one-dimensional arrays: component \<open>j\<close> of
  the result is the sum of the \<open>j\<close>-th components divided by the number of arrays. numpy
  raises when the arrays do not all have one length (\<open>None\<close>). Both callers return
  before this line when the list is empty.
\<close>

definition np_mean :: "vec list \<Rightarrow> vec option" where
  "np_mean vs =
     (if vs = [] \<or> list_ex (\<lambda>v. length v \<noteq> length (hd vs)) vs then None
      else Some (map (\<lambda>j. sum_list (map (\<lambda>v. v ! j) vs) / real (length vs))
                     [0..<length (hd vs)]))"

subsection \<open>Saving an upload\<close>

text \<open>
  \<^verbatim>\<open>save_uploaded_and_convert(file_storage, target_wav_path)\<close>. The result is the
  returned flag and what the call wrote at the target path, \<open>None\<close> when the target
  is as it was before the call.
\<close>

fun written :: "write_result \<Rightarrow> bool \<times> audio option" where
  "written (Written w) = (True, Some w)"
| "written (Write_failed p) = (False, p)"

definition save_uploaded_and_convert :: "env \<Rightarrow> upload \<Rightarrow> bool \<times> audio option" where
  "save_uploaded_and_convert e file =
     (let orig_filename =
            secure_filename e (if filename file = [] then ''upload'' else filename file);
          ext = ext_of orig_filename
      in if ext = ''.wav'' then written (save_direct e (data file))
         else if \<not> save_temp e then (False, None)
         else written (ffmpeg e (data file)))"

subsection \<open>Enrollment\<close>

record enroll_request =
  form_username :: string
  form_clip_number :: string
  audio_file :: "upload option"

record progress =
  clips_received :: nat
  required_clips :: nat
  enrollment_complete :: bool

text \<open>Lines 216 to 219 of the handler: the write to \<^verbatim>\<open>clip_<n>.wav\<close> in the user's folder.\<close>

definition store_clip :: "string \<Rightarrow> nat \<Rightarrow> audio option \<Rightarrow> state \<Rightarrow> state" where
  "store_clip username clip_number w st =
     (case w of
        None \<Rightarrow> st
      | Some c \<Rightarrow>
          st\<lparr>enrollments :=
               (enrollments st)(username := AList.update clip_number c (enrollments st username))\<rparr>)"

text \<open>The loop of lines 235 to 241 over \<^verbatim>\<open>range(1, REQUIRED_CLIPS + 1)\<close>.\<close>

fun collect_embeddings :: "env \<Rightarrow> folder \<Rightarrow> nat list \<Rightarrow> vec list" where
  "collect_embeddings e user_folder [] = []"
| "collect_embeddings e user_folder (i # is) =
     (case map_of user_folder i of
        None \<Rightarrow> collect_embeddings e user_folder is
      | Some clip \<Rightarrow>
          (case extract_embedding e clip of
             None \<Rightarrow> collect_embeddings e user_folder is
           | Some emb \<Rightarrow> emb # collect_embeddings e user_folder is))"

definition clip_embeddings :: "env \<Rightarrow> folder \<Rightarrow> vec list" where
  "clip_embeddings e user_folder = collect_embeddings e user_folder [1..<REQUIRED_CLIPS + 1]"

text \<open>
  Lines 232 to 273: the commit, run when the folder holds at least \<open>REQUIRED_CLIPS\<close>
  files. \<^verbatim>\<open>np.save\<close> writes the averaged embedding first; the registry is loaded,
  updated and saved after that. An exception of \<^verbatim>\<open>np.mean\<close>, of \<^verbatim>\<open>load_registry\<close> or
  of \<^verbatim>\<open>save_registry\<close> reaches the handler's \<^verbatim>\<open>except Exception\<close>, which answers 500.
\<close>

definition commit :: "env \<Rightarrow> string \<Rightarrow> state \<Rightarrow> (error + progress) \<times> state" where
  "commit e username st =
     (let user_folder = enrollments st username;
          existing_clips = length user_folder;
          embs = clip_embeddings e user_folder
      in if length embs = 0 then (Inl No_embeddings_extracted, st)
         else
           (case np_mean embs of
              None \<Rightarrow> (Inl Server_error, st)
            | Some avg_embedding \<Rightarrow>
                (let st1 = st\<lparr>embeddings := (embeddings st)(username \<mapsto> avg_embedding)\<rparr>
                 in case load_registry st1 of
                      None \<Rightarrow> (Inl Server_error, st1)
                    | Some reg \<Rightarrow>
                        (let (saved, st2) =
                               save_registry e
                                 (AList.update username
                                    \<lparr>enrolled_date = now e,
                                     clips_count = length embs,
                                     embedding_file = username @ ''.npy'',
                                     migrated_from = None\<rparr>
                                    reg) st1
                         in if \<not> saved then (Inl Server_error, st2)
                            else
                              (Inr \<lparr>clips_received = existing_clips,
                                    required_clips = REQUIRED_CLIPS,
                                    enrollment_complete = True\<rparr>,
                               st2)))))"

text \<open>The handler of \<^verbatim>\<open>POST /enroll\<close>.\<close>

definition enroll_speaker :: "env \<Rightarrow> enroll_request \<Rightarrow> state \<Rightarrow> (error + progress) \<times> state" where
  "enroll_speaker e req st =
     (let username = lower (strip (form_username req));
          clip_number = form_clip_number req
      in if username = [] then (Inl Username_required, st)
         else if clip_number = [] \<or> \<not> isdigit clip_number then (Inl Invalid_clip_number, st)
         else
           (let clip_number = int_of_digits clip_number
            in if clip_number < 1 \<or> clip_number > REQUIRED_CLIPS
               then (Inl Clip_number_out_of_range, st)
               else
                 (case audio_file req of
                    None \<Rightarrow> (Inl No_audio_file, st)
                  | Some file \<Rightarrow>
                      if filename file = [] then (Inl No_file_selected, st)
                      else
                        (let (success, w) = save_uploaded_and_convert e file;
                             st1 = store_clip username clip_number w st
                         in if \<not> success then (Inl Conversion_failed, st1)
                            else
                              (let existing_clips = length (enrollments st1 username)
                               in if existing_clips \<ge> REQUIRED_CLIPS then commit e username st1
                                  else
                                    (Inr \<lparr>clips_received = existing_clips,
                                          required_clips = REQUIRED_CLIPS,
                                          enrollment_complete = False\<rparr>,
                                     st1))))))"

subsection \<open>Migration of existing clips\<close>

text \<open>
  \<^verbatim>\<open>migrate_speaker(speaker_name)\<close>. \<open>source\<close> is the listing of
  \<^verbatim>\<open>audio_clips/<speaker_name>\<close> in the order \<^verbatim>\<open>os.listdir\<close> gives it, each name with
  the file's contents, or \<open>None\<close> when that folder does not exist. The function
  returns \<^verbatim>\<open>True\<close> or \<^verbatim>\<open>False\<close>; it catches no exception, and the result \<open>None\<close>
  is an exception of \<^verbatim>\<open>np.mean\<close>, of \<^verbatim>\<open>load_registry\<close> or of \<^verbatim>\<open>save_registry\<close>
  leaving it.
\<close>

fun copy_clips :: "(nat \<times> audio) list \<Rightarrow> folder \<Rightarrow> folder" where
  "copy_clips [] user_folder = user_folder"
| "copy_clips ((i, c) # rest) user_folder = copy_clips rest (AList.update i c user_folder)"

definition migrate_speaker ::
  "env \<Rightarrow> string \<Rightarrow> (string \<times> audio) list option \<Rightarrow> state \<Rightarrow> bool option \<times> state" where
  "migrate_speaker e speaker_name source st =
     (case source of
        None \<Rightarrow> (Some False, st)
      | Some listing \<Rightarrow>
          (let audio_files = filter (\<lambda>f. endswith (fst f) ''.wav'') listing
           in if length audio_files = 0 then (Some False, st)
              else
                (let clips_to_process = take CLIPS_TO_USE audio_files;
                     username = lower speaker_name;
                     numbered = zip [1..<length clips_to_process + 1] (map snd clips_to_process);
                     st1 = st\<lparr>enrollments :=
                                (enrollments st)(username :=
                                   copy_clips numbered (enrollments st username))\<rparr>;
                     embs = List.map_filter (extract_embedding e) (map snd clips_to_process)
                 in if length embs = 0 then (Some False, st1)
                    else
                      (case np_mean embs of
                         None \<Rightarrow> (None, st1)
                       | Some avg_embedding \<Rightarrow>
                           (let st2 = st1\<lparr>embeddings :=
                                           (embeddings st1)(username \<mapsto> avg_embedding)\<rparr>
                            in case load_registry st2 of
                                 None \<Rightarrow> (None, st2)
                               | Some reg \<Rightarrow>
                                   (let (saved, st3) =
                                          save_registry e
                                            (AList.update username
                                               \<lparr>enrolled_date = now e,
                                                clips_count = length embs,
                                                embedding_file = username @ ''.npy'',
                                                migrated_from = Some speaker_name\<rparr>
                                               reg) st2
                                    in if \<not> saved then (None, st3)
                                       else (Some True, st3)))))))"

subsection \<open>Deleting a user\<close>

text \<open>
  The handler of \<^verbatim>\<open>DELETE /delete-user/<username>\<close>: it removes the embedding file and
  the user's folder of clips, then the entry of the registry.
\<close>

definition delete_user :: "env \<Rightarrow> string \<Rightarrow> state \<Rightarrow> (error + unit) \<times> state" where
  "delete_user e name st =
     (let username = lower (strip name)
      in case load_registry st of
           None \<Rightarrow> (Inl Server_error, st)
         | Some reg \<Rightarrow>
             if map_of reg username = None then (Inl User_not_found, st)
             else
               (let st1 = st\<lparr>embeddings := (embeddings st)(username := None),
                             enrollments := (enrollments st)(username := [])\<rparr>;
                    (saved, st2) = save_registry e (AList.delete username reg) st1
                in if \<not> saved then (Inl Server_error, st2) else (Inr (), st2)))"

subsection \<open>Identification\<close>

record prediction =
  predicted :: "string option"
  confidence :: real
  all_similarities :: "(string \<rightharpoonup> real) option"

text \<open>
  The response of \<^verbatim>\<open>/predict\<close>: \<open>predicted\<close> is the JSON field \<^verbatim>\<open>prediction\<close>, a string
  or \<^verbatim>\<open>null\<close> (Python's \<open>None\<close>); \<open>all_similarities\<close> is \<open>None\<close> in the response for an
  empty registry, which has no such field.

  The loop of lines 356 to 366 over \<^verbatim>\<open>registry.keys()\<close>, on the triple
  \<^verbatim>\<open>(best_match, best_similarity, similarities)\<close>. An exception of \<^verbatim>\<open>np.dot\<close> leaves
  the loop and the handler answers 500.
\<close>

fun match_loop ::
  "vec \<Rightarrow> (string \<rightharpoonup> vec) \<Rightarrow> string list \<Rightarrow>
   string option \<times> real \<times> (string \<rightharpoonup> real) \<Rightarrow>
   error + (string option \<times> real \<times> (string \<rightharpoonup> real))" where
  "match_loop test_embedding embs [] acc = Inr acc"
| "match_loop test_embedding embs (username # rest) (best_match, best_similarity, similarities) =
     (case embs username of
        None \<Rightarrow>
          match_loop test_embedding embs rest (best_match, best_similarity, similarities)
      | Some stored_embedding \<Rightarrow>
          (case compute_similarity test_embedding stored_embedding of
             None \<Rightarrow> Inl Server_error
           | Some similarity \<Rightarrow>
               (if similarity > best_similarity
                then match_loop test_embedding embs rest
                       (Some username, similarity, similarities(username \<mapsto> similarity))
                else match_loop test_embedding embs rest
                       (best_match, best_similarity, similarities(username \<mapsto> similarity)))))"

text \<open>Lines 340 to 391: the matcher, from the probe's embedding to the response.\<close>

definition identify :: "vec \<Rightarrow> state \<Rightarrow> error + prediction" where
  "identify test_embedding st =
     (case load_registry st of
        None \<Rightarrow> Inl Server_error
      | Some reg \<Rightarrow>
          if length reg = 0
          then Inr \<lparr>predicted = Some ''Unknown'', confidence = 0, all_similarities = None\<rparr>
          else
            (case match_loop test_embedding (embeddings st) (map fst reg)
                    (None, - 1, Map.empty) of
               Inl err \<Rightarrow> Inl err
             | Inr (best_match, best_similarity, similarities) \<Rightarrow>
                 Inr \<lparr>predicted =
                        (if best_similarity \<ge> SIMILARITY_THRESHOLD then best_match
                         else Some ''Unknown''),
                      confidence = best_similarity,
                      all_similarities = Some similarities\<rparr>))"

text \<open>
  The handler of \<^verbatim>\<open>POST /predict\<close>. The upload is written under a fresh name in
  \<^verbatim>\<open>uploads/predictions/\<close> and removed again; that folder is not part of \<open>state\<close>, and
  the handler changes nothing else.
\<close>

definition predict_speaker :: "env \<Rightarrow> upload option \<Rightarrow> state \<Rightarrow> error + prediction" where
  "predict_speaker e req st =
     (case req of
        None \<Rightarrow> Inl No_audio_file
      | Some file \<Rightarrow>
          if filename file = [] then Inl No_file_selected
          else
            (let (success, w) = save_uploaded_and_convert e file
             in if \<not> success then Inl Conversion_failed
                else
                  (case Option.bind w (extract_embedding e) of
                     None \<Rightarrow> Inl Failed_to_process_audio
                   | Some test_embedding \<Rightarrow> identify test_embedding st)))"

subsection \<open>Requests that pass the handler's checks\<close>

text \<open>
  The checks at the head of \<^verbatim>\<open>enroll_speaker\<close> (lines 175 to 210), collected so that
  the theorems can speak of a request that reaches the write of the clip.
\<close>

definition request_username :: "enroll_request \<Rightarrow> string" where
  "request_username req = lower (strip (form_username req))"

definition request_clip :: "enroll_request \<Rightarrow> nat" where
  "request_clip req = int_of_digits (form_clip_number req)"

definition valid_request :: "enroll_request \<Rightarrow> bool" where
  "valid_request req =
     (request_username req \<noteq> [] \<and> isdigit (form_clip_number req) \<and>
      1 \<le> request_clip req \<and> request_clip req \<le> REQUIRED_CLIPS \<and>
      (case audio_file req of None \<Rightarrow> False | Some upl \<Rightarrow> filename upl \<noteq> []))"

subsection \<open>The invariant of the registry\<close>

text \<open>
  The specification's invariant of the data model: the keys of the registry are
  pairwise different, and every entry's \<open>clips_count\<close> lies between 1 and
  \<open>REQUIRED_CLIPS\<close>.
\<close>

definition registry_ok :: "(string \<times> entry) list \<Rightarrow> bool" where
  "registry_ok reg =
     (distinct (map fst reg) \<and>
      list_all (\<lambda>p. 1 \<le> clips_count (snd p) \<and> clips_count (snd p) \<le> REQUIRED_CLIPS) reg)"

text \<open>
  The specification's choice among the registered users: position \<open>i\<close> of \<open>keys\<close> is
  the first one whose score is the maximum of all scores.
\<close>

definition first_max :: "(string \<Rightarrow> real) \<Rightarrow> string list \<Rightarrow> nat \<Rightarrow> bool" where
  "first_max score keys i =
     (i < length keys \<and>
      list_all (\<lambda>u. score u \<le> score (keys ! i)) keys \<and>
      list_all (\<lambda>u. score u < score (keys ! i)) (take i keys))"

subsection \<open>Sequences of operations\<close>





subsection \<open>Example data\<close>

definition example_extract :: "audio \<Rightarrow> vec option" where
  "example_extract a =
     (if a = ''a'' then Some [1, 0] else if a = ''b'' then Some [0, 1] else None)"

definition example_env ::
  "(audio \<Rightarrow> write_result) \<Rightarrow> (audio \<Rightarrow> vec option) \<Rightarrow> string \<Rightarrow> bool \<Rightarrow> env" where
  "example_env conv ext t rw =
     \<lparr>secure_filename = (\<lambda>s. s), save_direct = Written, save_temp = True, ffmpeg = conv,
      extract_embedding = ext, now = t, registry_writable = rw, registry_truncated = False\<rparr>"

definition example_request :: "string \<Rightarrow> string \<Rightarrow> string \<Rightarrow> audio \<Rightarrow> enroll_request" where
  "example_request u n name d =
     \<lparr>form_username = u, form_clip_number = n,
      audio_file = Some \<lparr>filename = name, data = d\<rparr>\<rparr>"

definition example_entry :: "string \<Rightarrow> nat \<Rightarrow> entry" where
  "example_entry u k =
     \<lparr>enrolled_date = ''2025-01-01T00:00:00'', clips_count = k,
      embedding_file = u @ ''.npy'', migrated_from = None\<rparr>"

definition example_state ::
  "folder \<Rightarrow> (string \<rightharpoonup> vec) \<Rightarrow> (string \<times> entry) list \<Rightarrow> state" where
  "example_state alice_folder embs reg =
     \<lparr>enrollments = (\<lambda>u. if u = ''alice'' then alice_folder else []),
      embeddings = embs, registry_file = Parsed reg\<rparr>"

section \<open>Properties\<close>

subsection \<open>Auxiliary facts\<close>

lemma enroll_speaker_valid:
  assumes "valid_request req" and "audio_file req = Some upl"
    and "save_uploaded_and_convert e upl = (success, w)"
  shows "enroll_speaker e req st =
     (let username = request_username req;
          st1 = store_clip username (request_clip req) w st
      in if \<not> success then (Inl Conversion_failed, st1)
         else if REQUIRED_CLIPS \<le> length (enrollments st1 username) then commit e username st1
         else (Inr \<lparr>clips_received = length (enrollments st1 username),
                    required_clips = REQUIRED_CLIPS, enrollment_complete = False\<rparr>, st1))"
  using assms
  by (auto simp: enroll_speaker_def valid_request_def request_username_def request_clip_def
      isdigit_def Let_def)

lemma store_clip_registry_file: "registry_file (store_clip u n w st) = registry_file st"
  by (cases w) (simp_all add: store_clip_def)

lemma store_clip_registry: "registry (store_clip u n w st) = registry st"
  by (simp add: registry_def store_clip_registry_file)

lemma load_registry_Some: "load_registry st = Some reg \<longleftrightarrow> registry_file st = Parsed reg"
  by (simp add: load_registry_def split: registry_file.splits)

lemma load_registry_None: "load_registry st = None \<longleftrightarrow> registry_file st = Unparsable"
  by (simp add: load_registry_def split: registry_file.splits)

lemma registry_nonempty: "registry st \<noteq> [] \<Longrightarrow> load_registry st = Some (registry st)"
  by (simp add: registry_def load_registry_def split: registry_file.splits)

lemma registry_example_state: "registry (example_state alice_folder embs reg) = reg"
  by (simp add: registry_def example_state_def)

lemma store_clip_embeddings: "embeddings (store_clip u n w st) = embeddings st"
  by (cases w) (simp_all add: store_clip_def)

lemma store_clip_slots:
  "map_of (enrollments (store_clip u n (Some c) st) v) i =
     (if v = u \<and> i = n then Some c else map_of (enrollments st v) i)"
  by (simp add: store_clip_def update_conv')

lemma match_loop_filter:
  "match_loop probe embs keys acc = match_loop probe embs (filter (\<lambda>u. embs u \<noteq> None) keys) acc"
proof (induction probe embs keys acc rule: match_loop.induct)
  case (1 probe embs acc)
  show ?case by simp
next
  case (2 probe embs username rest best_match best_similarity similarities)
  then show ?case
    by (cases "embs username") (auto split: option.splits)
qed

lemma match_loop_all_missing:
  "\<forall>u\<in>set keys. embs u = None \<Longrightarrow> match_loop probe embs keys acc = Inr acc"
  by (induction probe embs keys acc rule: match_loop.induct) auto

lemma predict_speaker_identify:
  assumes "filename upl \<noteq> []" and "save_uploaded_and_convert e upl = (True, Some wav)"
    and "extract_embedding e wav = Some test_embedding"
  shows "predict_speaker e (Some upl) st = identify test_embedding st"
  using assms by (simp add: predict_speaker_def)

lemmas example_defs =
  example_extract_def example_env_def example_request_def example_entry_def example_state_def
  registry_def load_registry_def save_registry_def

lemmas request_defs =
  valid_request_def request_username_def request_clip_def lower_def strip_def is_space_def
  lower_char_def isdigit_def int_of_digits_def REQUIRED_CLIPS_def
  save_uploaded_and_convert_def ext_of_def store_clip_def

subsection \<open>The matcher on an empty registry\<close>

text \<open>
  C6. Whatever the probe and whatever the embedding files hold, the matcher on an empty
  registry (a registry file that holds the empty dictionary, or none) answers the prediction \<^verbatim>\<open>Unknown\<close> with confidence 0 and no table of
  similarities: the answer does not depend on the probe or on any stored embedding, not
  even on their lengths, so no comparison takes place.
\<close>

theorem identify_empty_registry:
  "identify probe (st\<lparr>registry_file := Parsed []\<rparr>) =
     Inr \<lparr>predicted = Some ''Unknown'', confidence = 0, all_similarities = None\<rparr>"
  by (simp add: identify_def load_registry_def)

subsection \<open>Registered users without an embedding file\<close>

text \<open>
  C10. When the registry is not empty and no registered user has an embedding file, the
  matcher answers \<^verbatim>\<open>Unknown\<close> with confidence \<open>-1\<close>, the initial value of
  \<^verbatim>\<open>best_similarity\<close>, and an empty table of similarities. In general the loop over
  the registry does what it would do on the registered users that have a file: the
  others are passed over and raise no error.
\<close>

theorem identify_missing_files:
  "(registry st \<noteq> [] \<and> (\<forall>u\<in>set (map fst (registry st)). embeddings st u = None) \<longrightarrow>
      identify probe st =
        Inr \<lparr>predicted = Some ''Unknown'', confidence = - 1, all_similarities = Some Map.empty\<rparr>) \<and>
   match_loop probe embs keys acc =
     match_loop probe embs (filter (\<lambda>u. embs u \<noteq> None) keys) acc"
proof (intro conjI impI)
  assume a: "registry st \<noteq> [] \<and> (\<forall>u\<in>set (map fst (registry st)). embeddings st u = None)"
  then have "match_loop probe (embeddings st) (map fst (registry st)) (None, - 1, Map.empty)
               = Inr (None, - 1, Map.empty)"
    by (intro match_loop_all_missing) simp
  with a show "identify probe st =
        Inr \<lparr>predicted = Some ''Unknown'', confidence = - 1, all_similarities = Some Map.empty\<rparr>"
    by (simp add: identify_def registry_nonempty SIMILARITY_THRESHOLD_def)
next
  show "match_loop probe embs keys acc =
     match_loop probe embs (filter (\<lambda>u. embs u \<noteq> None) keys) acc"
    by (rule match_loop_filter)
qed

theorem identify_missing_files_witness:
  "identify [1, 0] (example_state [] Map.empty [(''alice'', example_entry ''alice'' 4)]) =
     Inr \<lparr>predicted = Some ''Unknown'', confidence = - 1, all_similarities = Some Map.empty\<rparr>"
  using identify_missing_files
    [of "example_state [] Map.empty [(''alice'', example_entry ''alice'' 4)]" "[1, 0]"]
  by (simp add: example_defs)

subsection \<open>A commit that extracts no vector\<close>

text \<open>
  C7. A request that passes the checks, whose upload is saved, and that finds
  \<open>REQUIRED_CLIPS\<close> files in the folder runs the commit. If no clip of the folder
  yields an embedding, the answer is the error of lines 243 to 247
  (\<open>No_embeddings_extracted\<close>, status 500). The state is then the one the write of the
  clip left: the registry and the embedding files are as before the request, and every
  slot of every folder holds what it held, the slot of the request holding the new
  clip.
\<close>

theorem enroll_no_vectors:
  fixes e req st upl w
  defines "st1 \<equiv> store_clip (request_username req) (request_clip req) (Some w) st"
  assumes "valid_request req" and "audio_file req = Some upl"
    and "save_uploaded_and_convert e upl = (True, Some w)"
    and "REQUIRED_CLIPS \<le> length (enrollments st1 (request_username req))"
    and "clip_embeddings e (enrollments st1 (request_username req)) = []"
  shows "enroll_speaker e req st = (Inl No_embeddings_extracted, st1) \<and>
         registry st1 = registry st \<and> embeddings st1 = embeddings st \<and>
         (\<forall>u i. map_of (enrollments st1 u) i =
                  (if u = request_username req \<and> i = request_clip req then Some w
                   else map_of (enrollments st u) i))"
proof -
  have "enroll_speaker e req st = commit e (request_username req) st1"
    using assms by (simp add: enroll_speaker_valid Let_def)
  moreover have "commit e (request_username req) st1 = (Inl No_embeddings_extracted, st1)"
    using assms(6) by (simp add: commit_def Let_def)
  ultimately show ?thesis
    by (simp add: st1_def store_clip_registry store_clip_embeddings store_clip_slots)
qed

theorem enroll_no_vectors_witness:
  "enroll_speaker (example_env Written example_extract ''t'' True)
     (example_request ''alice'' ''4'' ''c.webm'' ''q'')
     (example_state [(1, ''x''), (2, ''y''), (3, ''z'')] Map.empty []) =
   (Inl No_embeddings_extracted,
    store_clip ''alice'' 4 (Some ''q'')
      (example_state [(1, ''x''), (2, ''y''), (3, ''z'')] Map.empty []))"
proof -
  let ?e = "example_env Written example_extract ''t'' True"
  let ?req = "example_request ''alice'' ''4'' ''c.webm'' ''q''"
  let ?st = "example_state [(1, ''x''), (2, ''y''), (3, ''z'')] Map.empty []"
  have u: "request_username ?req = ''alice''" and n: "request_clip ?req = 4"
    by (simp_all add: example_defs request_defs)
  have h1: "valid_request ?req"
    by (simp add: example_defs request_defs)
  have h2: "audio_file ?req = Some \<lparr>filename = ''c.webm'', data = ''q''\<rparr>"
    by (simp add: example_defs)
  have h3: "save_uploaded_and_convert ?e \<lparr>filename = ''c.webm'', data = ''q''\<rparr> = (True, Some ''q'')"
    by (simp add: example_defs request_defs)
  have h4: "REQUIRED_CLIPS \<le> length (enrollments
      (store_clip (request_username ?req) (request_clip ?req) (Some ''q'') ?st)
      (request_username ?req))"
    unfolding u n by (simp add: example_defs request_defs)
  have h5: "clip_embeddings ?e (enrollments
      (store_clip (request_username ?req) (request_clip ?req) (Some ''q'') ?st)
      (request_username ?req)) = []"
    unfolding u n by (simp add: example_defs request_defs clip_embeddings_def upt_rec)
  show ?thesis
    using enroll_no_vectors [OF h1 h2 h3 h4 h5] unfolding u n by simp
qed

subsection \<open>Facts about the clip folders\<close>

lemma length_update:
  "length (AList.update k v al) = (if k \<in> fst ` set al then length al else Suc (length al))"
  by (induction al) auto

lemma store_clip_twice:
  "store_clip u n (Some b) (store_clip u n (Some a) st) = store_clip u n (Some b) st"
  by (simp add: store_clip_def)

lemma store_clip_folder:
  "enrollments (store_clip u n (Some c) st) u = AList.update n c (enrollments st u)"
  by (simp add: store_clip_def)

lemma save_registry_enrollments: "enrollments (snd (save_registry e reg st)) = enrollments st"
  by (simp add: save_registry_def)

lemma save_registry_embeddings: "embeddings (snd (save_registry e reg st)) = embeddings st"
  by (simp add: save_registry_def)

lemma commit_enrollments: "enrollments (snd (commit e u st)) = enrollments st"
  using save_registry_enrollments
  by (auto simp: commit_def Let_def split: option.splits prod.splits dest: sndI)

subsection \<open>Submitting one slot twice\<close>

text \<open>
  C8. Two requests for the same user and the same slot, both saved, the first of them
  leaving the folder short of \<open>REQUIRED_CLIPS\<close> files. After the second request the
  slot holds the second clip, the folder has as many files as after the first request,
  the answer reports that number with \<^verbatim>\<open>enrollment_complete\<close> false, and the answer
  and the whole state are those of the second request sent alone: nothing of the first
  clip is left for a later commit to read.
\<close>

theorem resubmission_overwrites:
  fixes e1 e2 req1 req2 st st1 st2 r1 r2 upl1 upl2 a b
  assumes "valid_request req1" and "valid_request req2"
    and "request_username req2 = request_username req1"
    and "request_clip req2 = request_clip req1"
    and "audio_file req1 = Some upl1" and "audio_file req2 = Some upl2"
    and "save_uploaded_and_convert e1 upl1 = (True, Some a)"
    and "save_uploaded_and_convert e2 upl2 = (True, Some b)"
    and "enroll_speaker e1 req1 st = (r1, st1)"
    and "enroll_speaker e2 req2 st1 = (r2, st2)"
    and "length (enrollments st1 (request_username req1)) < REQUIRED_CLIPS"
  shows "map_of (enrollments st2 (request_username req1)) (request_clip req1) = Some b \<and>
         length (enrollments st2 (request_username req1)) =
           length (enrollments st1 (request_username req1)) \<and>
         r2 = Inr \<lparr>clips_received = length (enrollments st1 (request_username req1)),
                   required_clips = REQUIRED_CLIPS, enrollment_complete = False\<rparr> \<and>
         enroll_speaker e2 req2 st = (r2, st2)"
proof -
  let ?u = "request_username req1" and ?n = "request_clip req1"
  let ?s1 = "store_clip ?u ?n (Some a) st"
  have first: "enroll_speaker e1 req1 st =
      (if REQUIRED_CLIPS \<le> length (enrollments ?s1 ?u) then commit e1 ?u ?s1
       else (Inr \<lparr>clips_received = length (enrollments ?s1 ?u),
                  required_clips = REQUIRED_CLIPS, enrollment_complete = False\<rparr>, ?s1))"
    using enroll_speaker_valid [OF assms(1,5,7)] by (simp add: Let_def)
  have "st1 = snd (enroll_speaker e1 req1 st)"
    using assms(9) by simp
  then have "enrollments st1 = enrollments ?s1"
    using first commit_enrollments by simp
  with assms(11) have small: "length (enrollments ?s1 ?u) < REQUIRED_CLIPS"
    by simp
  with first assms(9) have st1: "st1 = ?s1"
    by simp
  have len: "length (AList.update ?n b (enrollments st ?u)) = length (enrollments ?s1 ?u)"
    by (simp add: store_clip_folder length_update dom_update)
  have second: "enroll_speaker e2 req2 st1 =
      (Inr \<lparr>clips_received = length (enrollments ?s1 ?u),
            required_clips = REQUIRED_CLIPS, enrollment_complete = False\<rparr>,
       store_clip ?u ?n (Some b) st)"
    using enroll_speaker_valid [OF assms(2,6,8), of st1] assms(3,4) small
    by (simp add: Let_def st1 store_clip_twice store_clip_folder len)
  have alone: "enroll_speaker e2 req2 st =
      (Inr \<lparr>clips_received = length (enrollments ?s1 ?u),
            required_clips = REQUIRED_CLIPS, enrollment_complete = False\<rparr>,
       store_clip ?u ?n (Some b) st)"
    using enroll_speaker_valid [OF assms(2,6,8), of st] assms(3,4) small
    by (simp add: Let_def store_clip_folder len)
  from second assms(10) have r2: "r2 = Inr \<lparr>clips_received = length (enrollments ?s1 ?u),
            required_clips = REQUIRED_CLIPS, enrollment_complete = False\<rparr>"
    and st2: "st2 = store_clip ?u ?n (Some b) st"
    by simp_all
  show ?thesis
    using alone r2 st2 st1 len by (simp add: store_clip_folder update_conv')
qed

theorem resubmission_overwrites_witness:
  "map_of (enrollments (store_clip ''alice'' 1 (Some ''b'') (example_state [] Map.empty []))
            ''alice'') 1 = Some ''b'' \<and>
   enroll_speaker (example_env Written example_extract ''t2'' True)
     (example_request ''Alice'' ''1'' ''second.ogg'' ''b'')
     (example_state [] Map.empty []) =
   (Inr \<lparr>clips_received = 1, required_clips = REQUIRED_CLIPS, enrollment_complete = False\<rparr>,
    store_clip ''alice'' 1 (Some ''b'') (example_state [] Map.empty []))"
proof -
  let ?e1 = "example_env Written example_extract ''t1'' True"
  let ?e2 = "example_env Written example_extract ''t2'' True"
  let ?req1 = "example_request ''alice'' ''1'' ''first.webm'' ''a''"
  let ?req2 = "example_request ''Alice'' ''1'' ''second.ogg'' ''b''"
  let ?st = "example_state [] Map.empty []"
  let ?st1 = "store_clip ''alice'' 1 (Some ''a'') ?st"
  let ?st2 = "store_clip ''alice'' 1 (Some ''b'') ?st"
  let ?r = "Inr \<lparr>clips_received = 1, required_clips = REQUIRED_CLIPS,
                  enrollment_complete = False\<rparr> :: error + progress"
  have u: "request_username ?req1 = ''alice''" and n: "request_clip ?req1 = 1"
    by (simp_all add: example_defs request_defs)
  have h1: "valid_request ?req1" and h2: "valid_request ?req2"
    by (simp_all add: example_defs request_defs)
  have h3: "request_username ?req2 = request_username ?req1"
    and h4: "request_clip ?req2 = request_clip ?req1"
    by (simp_all add: example_defs request_defs)
  have h5: "audio_file ?req1 = Some \<lparr>filename = ''first.webm'', data = ''a''\<rparr>"
    and h6: "audio_file ?req2 = Some \<lparr>filename = ''second.ogg'', data = ''b''\<rparr>"
    by (simp_all add: example_defs)
  have h7: "save_uploaded_and_convert ?e1 \<lparr>filename = ''first.webm'', data = ''a''\<rparr> =
              (True, Some ''a'')"
    and h8: "save_uploaded_and_convert ?e2 \<lparr>filename = ''second.ogg'', data = ''b''\<rparr> =
              (True, Some ''b'')"
    by (simp_all add: example_defs request_defs)
  have h9: "enroll_speaker ?e1 ?req1 ?st = (?r, ?st1)"
    using enroll_speaker_valid [OF h1 h5 h7, of ?st] unfolding u n
    by (simp add: Let_def store_clip_folder) (simp add: example_defs REQUIRED_CLIPS_def)
  have h10: "enroll_speaker ?e2 ?req2 ?st1 = (?r, ?st2)"
    using enroll_speaker_valid [OF h2 h6 h8, of ?st1] unfolding h3 h4 u n
    by (simp add: Let_def store_clip_folder store_clip_twice)
       (simp add: example_defs REQUIRED_CLIPS_def)
  have h11: "length (enrollments ?st1 (request_username ?req1)) < REQUIRED_CLIPS"
    unfolding u by (simp add: store_clip_folder) (simp add: example_defs REQUIRED_CLIPS_def)
  show ?thesis
    using resubmission_overwrites [OF h1 h2 h3 h4 h5 h6 h7 h8 h9 h10 h11] unfolding u n
    by simp
qed

subsection \<open>A failed conversion\<close>

text \<open>
  C4, as amended. A request that passes the checks and whose upload cannot be saved or
  converted is answered with the conversion error (status 400). The handler itself
  writes and removes nothing on that path: the registry, the embedding files, the
  folders of the other users and the other slots of the user are as before. The slot
  of the request is the output path handed to \<^verbatim>\<open>ffmpeg -y\<close> (or to
  \<^verbatim>\<open>file_storage.save\<close> for a \<^verbatim>\<open>.wav\<close> upload): it is as before when the failed
  writer left that path alone (\<open>w = None\<close>, then the whole state is unchanged), and
  otherwise it holds what the writer left there.
\<close>

theorem failed_conversion:
  fixes e req st upl w
  defines "st1 \<equiv> store_clip (request_username req) (request_clip req) w st"
  assumes "valid_request req" and "audio_file req = Some upl"
    and "save_uploaded_and_convert e upl = (False, w)"
  shows "enroll_speaker e req st = (Inl Conversion_failed, st1) \<and>
         registry st1 = registry st \<and> embeddings st1 = embeddings st \<and>
         (w = None \<longrightarrow> st1 = st) \<and>
         (\<forall>u i. map_of (enrollments st1 u) i =
                  (if u = request_username req \<and> i = request_clip req \<and> w \<noteq> None then w
                   else map_of (enrollments st u) i))"
proof -
  have "enroll_speaker e req st = (Inl Conversion_failed, st1)"
    using enroll_speaker_valid [OF assms(2,3,4), of st] by (simp add: Let_def st1_def)
  moreover have "\<forall>u i. map_of (enrollments st1 u) i =
                  (if u = request_username req \<and> i = request_clip req \<and> w \<noteq> None then w
                   else map_of (enrollments st u) i)"
    by (cases w) (simp_all add: st1_def store_clip_slots, simp add: store_clip_def)
  moreover have "w = None \<longrightarrow> st1 = st"
    by (simp add: st1_def store_clip_def)
  ultimately show ?thesis
    by (simp add: st1_def store_clip_registry store_clip_embeddings)
qed

theorem failed_conversion_witness:
  "enroll_speaker (example_env (\<lambda>d. Write_failed None) example_extract ''t'' True)
     (example_request ''alice'' ''1'' ''c.webm'' ''q'')
     (example_state [(1, ''a'')] Map.empty []) =
   (Inl Conversion_failed, example_state [(1, ''a'')] Map.empty [])"
proof -
  let ?e = "example_env (\<lambda>d. Write_failed None) example_extract ''t'' True"
  let ?req = "example_request ''alice'' ''1'' ''c.webm'' ''q''"
  have h1: "valid_request ?req"
    by (simp add: example_defs request_defs)
  have h2: "audio_file ?req = Some \<lparr>filename = ''c.webm'', data = ''q''\<rparr>"
    by (simp add: example_defs)
  have h3: "save_uploaded_and_convert ?e \<lparr>filename = ''c.webm'', data = ''q''\<rparr> = (False, None)"
    by (simp add: example_defs request_defs)
  show ?thesis
    using failed_conversion [OF h1 h2 h3, of "example_state [(1, ''a'')] Map.empty []"]
    by (simp add: store_clip_def)
qed

text \<open>
  The claim as it is written fails when the failed writer has opened its output: here
  \<^verbatim>\<open>ffmpeg\<close> exits with an error and leaves an empty file at the path of slot 1, which
  held the clip \<open>''a''\<close>.
\<close>

theorem failed_conversion_counterexample:
  "fst (enroll_speaker (example_env (\<lambda>d. Write_failed (Some [])) example_extract ''t'' True)
          (example_request ''alice'' ''1'' ''c.webm'' ''q'')
          (example_state [(1, ''a'')] Map.empty [])) = Inl Conversion_failed \<and>
   map_of (enrollments (example_state [(1, ''a'')] Map.empty []) ''alice'') 1 = Some ''a'' \<and>
   map_of (enrollments
     (snd (enroll_speaker (example_env (\<lambda>d. Write_failed (Some [])) example_extract ''t'' True)
          (example_request ''alice'' ''1'' ''c.webm'' ''q'')
          (example_state [(1, ''a'')] Map.empty []))) ''alice'') 1 = Some []"
  by (simp add: enroll_speaker_def example_defs request_defs Let_def)

subsection \<open>Facts about the commit\<close>

lemma collect_embeddings_map_filter:
  "collect_embeddings e user_folder is =
     List.map_filter (\<lambda>i. Option.bind (map_of user_folder i) (extract_embedding e)) is"
  by (induction "is") (auto simp: List.map_filter_simps split: option.splits)

lemma clip_embeddings_slots:
  "clip_embeddings e user_folder =
     List.map_filter (\<lambda>i. Option.bind (map_of user_folder i) (extract_embedding e)) [1, 2, 3, 4]"
proof -
  have "[1..<REQUIRED_CLIPS + 1] = [1, 2, 3, 4]"
    by (simp add: REQUIRED_CLIPS_def upt_rec eval_nat_numeral)
  then show ?thesis
    by (simp only: clip_embeddings_def collect_embeddings_map_filter)
qed

lemma length_collect_embeddings: "length (collect_embeddings e user_folder is) \<le> length is"
  by (induction "is") (auto split: option.splits)

lemma length_clip_embeddings: "length (clip_embeddings e user_folder) \<le> REQUIRED_CLIPS"
proof -
  have "length (clip_embeddings e user_folder) \<le> length [1..<REQUIRED_CLIPS + 1]"
    unfolding clip_embeddings_def by (rule length_collect_embeddings)
  then show ?thesis by (simp only: length_upt add_diff_cancel_right')
qed

lemma np_mean_Some:
  assumes "vs \<noteq> []" and "\<forall>v\<in>set vs. length v = d"
  shows "\<exists>avg. np_mean vs = Some avg \<and> length avg = d \<and>
           (\<forall>j<d. avg ! j = sum_list (map (\<lambda>v. v ! j) vs) / real (length vs))"
proof -
  from assms have hd: "length (hd vs) = d"
    by (cases vs) auto
  with assms have "\<not> list_ex (\<lambda>v. length v \<noteq> length (hd vs)) vs"
    by (simp add: list_ex_iff)
  with assms(1) hd show ?thesis
    by (simp add: np_mean_def)
qed

lemma commit_success:
  assumes "np_mean (clip_embeddings e (enrollments st u)) = Some avg"
  shows "commit e u st =
     (case registry_file st of
        Unparsable \<Rightarrow> (Inl Server_error, st\<lparr>embeddings := (embeddings st)(u \<mapsto> avg)\<rparr>)
      | Parsed reg \<Rightarrow>
          if registry_writable e
          then (Inr \<lparr>clips_received = length (enrollments st u),
                     required_clips = REQUIRED_CLIPS, enrollment_complete = True\<rparr>,
                st\<lparr>embeddings := (embeddings st)(u \<mapsto> avg),
                   registry_file := Parsed (AList.update u
                     \<lparr>enrolled_date = now e,
                      clips_count = length (clip_embeddings e (enrollments st u)),
                      embedding_file = u @ ''.npy'', migrated_from = None\<rparr> reg)\<rparr>)
          else (Inl Server_error,
                st\<lparr>embeddings := (embeddings st)(u \<mapsto> avg),
                   registry_file := (if registry_truncated e then Unparsable else Parsed reg)\<rparr>))"
proof -
  from assms have "clip_embeddings e (enrollments st u) \<noteq> []"
    by (auto simp: np_mean_def)
  with assms show ?thesis
    by (cases "registry_file st")
       (simp_all add: commit_def Let_def load_registry_def save_registry_def)
qed

subsection \<open>The two writes of the commit\<close>

text \<open>
  C3, as amended. The commit is two writes: \<^verbatim>\<open>np.save\<close> stores the averaged embedding in
  \<^verbatim>\<open>embeddings/<username>.npy\<close> first, and \<^verbatim>\<open>save_registry\<close> stores the registry with
  the user's entry (\<^verbatim>\<open>enrolled_date\<close>, \<^verbatim>\<open>clips_count\<close>, \<^verbatim>\<open>embedding_file\<close>) second.
  For a request that reaches the commit with at least one extracted vector, the clips
  stay in the folder and the new embedding is stored, in place of the one the user
  had, whatever happens to the registry afterwards; nothing is rolled back. When the
  registry is read and written, the answer reports the completed enrollment and the
  registry holds the new entry. When the registry file cannot be parsed, the answer is
  the server error (status 500) and the file stays as it is. When the write of the
  registry fails, the answer is the server error, and the registry file is as before
  only if the failure was in opening it: \<^verbatim>\<open>save_registry\<close> opens the file with mode
  \<^verbatim>\<open>'w'\<close>, which empties it, before \<^verbatim>\<open>json.dump\<close>, so a failure after that leaves a
  file that no later request can parse.
\<close>

theorem commit_not_atomic:
  fixes e req st upl w avg
  defines "u \<equiv> request_username req"
  defines "st1 \<equiv> store_clip (request_username req) (request_clip req) (Some w) st"
  assumes "valid_request req" and "audio_file req = Some upl"
    and "save_uploaded_and_convert e upl = (True, Some w)"
    and "REQUIRED_CLIPS \<le> length (enrollments st1 u)"
    and "np_mean (clip_embeddings e (enrollments st1 u)) = Some avg"
  shows "enroll_speaker e req st =
     (case registry_file st of
        Unparsable \<Rightarrow> (Inl Server_error, st1\<lparr>embeddings := (embeddings st)(u \<mapsto> avg)\<rparr>)
      | Parsed reg \<Rightarrow>
          if registry_writable e
          then (Inr \<lparr>clips_received = length (enrollments st1 u),
                     required_clips = REQUIRED_CLIPS, enrollment_complete = True\<rparr>,
                st1\<lparr>embeddings := (embeddings st)(u \<mapsto> avg),
                    registry_file := Parsed (AList.update u
                      \<lparr>enrolled_date = now e,
                       clips_count = length (clip_embeddings e (enrollments st1 u)),
                       embedding_file = u @ ''.npy'', migrated_from = None\<rparr> reg)\<rparr>)
          else (Inl Server_error,
                st1\<lparr>embeddings := (embeddings st)(u \<mapsto> avg),
                    registry_file := (if registry_truncated e then Unparsable else Parsed reg)\<rparr>))"
proof -
  have c: "enroll_speaker e req st = commit e u st1"
    using enroll_speaker_valid [OF assms(3,4,5), of st] assms(6)
    by (simp add: Let_def u_def st1_def)
  have rf: "registry_file st1 = registry_file st" and em: "embeddings st1 = embeddings st"
    by (simp_all add: st1_def store_clip_registry_file store_clip_embeddings)
  show ?thesis
    unfolding c commit_success [OF assms(7)] rf em by (rule refl)
qed

lemmas commit_defs = enroll_speaker_def commit_def clip_embeddings_def np_mean_def Let_def upt_rec

theorem commit_not_atomic_witness:
  "enroll_speaker (example_env Written example_extract ''t1'' True)
     (example_request ''alice'' ''4'' ''d.webm'' ''a'')
     (example_state [(1, ''a''), (2, ''b''), (3, ''q'')] Map.empty []) =
   (Inr \<lparr>clips_received = 4, required_clips = REQUIRED_CLIPS, enrollment_complete = True\<rparr>,
    example_state [(1, ''a''), (2, ''b''), (3, ''q''), (4, ''a'')]
      [''alice'' \<mapsto> [2 / 3, 1 / 3]]
      [(''alice'', \<lparr>enrolled_date = ''t1'', clips_count = 3,
                    embedding_file = ''alice.npy'', migrated_from = None\<rparr>)])"
proof -
  let ?e = "example_env Written example_extract ''t1'' True"
  let ?req = "example_request ''alice'' ''4'' ''d.webm'' ''a''"
  let ?st = "example_state [(1, ''a''), (2, ''b''), (3, ''q'')] Map.empty []"
  have u: "request_username ?req = ''alice''" and n: "request_clip ?req = 4"
    by (simp_all add: example_defs request_defs)
  have f: "enrollments (store_clip ''alice'' 4 (Some ''a'') ?st) ''alice'' =
             [(1, ''a''), (2, ''b''), (3, ''q''), (4, ''a'')]"
    by (simp add: store_clip_folder) (simp add: example_defs)
  have c: "clip_embeddings ?e [(1, ''a''), (2, ''b''), (3, ''q''), (4, ''a'')] =
             [[1, 0], [0, 1], [1, 0]]"
    by (simp add: clip_embeddings_slots List.map_filter_simps) (simp add: example_defs)
  have h1: "valid_request ?req"
    by (simp add: example_defs request_defs)
  have h2: "audio_file ?req = Some \<lparr>filename = ''d.webm'', data = ''a''\<rparr>"
    by (simp add: example_defs)
  have h3: "save_uploaded_and_convert ?e \<lparr>filename = ''d.webm'', data = ''a''\<rparr> = (True, Some ''a'')"
    by (simp add: example_defs request_defs)
  have h4: "REQUIRED_CLIPS \<le> length (enrollments
      (store_clip (request_username ?req) (request_clip ?req) (Some ''a'') ?st)
      (request_username ?req))"
    unfolding u n f by (simp add: REQUIRED_CLIPS_def)
  have h5: "np_mean (clip_embeddings ?e (enrollments
      (store_clip (request_username ?req) (request_clip ?req) (Some ''a'') ?st)
      (request_username ?req))) = Some [2 / 3, 1 / 3]"
    unfolding u n f c by (simp add: np_mean_def upt_rec)
  have w: "registry_writable ?e" and t: "now ?e = ''t1''"
    and r: "registry_file ?st = Parsed []"
    by (simp_all add: example_defs)
  show ?thesis
    using commit_not_atomic [OF h1 h2 h3 h4 h5] unfolding u n f c
    by (simp add: w t r) (simp add: example_defs store_clip_def fun_eq_iff)
qed

text \<open>
  The claim as it is written fails for a user who is enrolled already, whichever way
  the write of the registry fails. When \<^verbatim>\<open>open\<close> fails, the answer is the server error
  and the entry in the registry is the old one, yet the matcher now compares a probe
  with the embedding of the failed commit (confidence \<open>1/4\<close> where it was \<open>0\<close>). When
  the failure comes after \<^verbatim>\<open>open\<close>, the registry file is left unparsable and the matcher
  answers the server error.
\<close>

theorem commit_not_atomic_counterexample:
  "fst (enroll_speaker (example_env Written example_extract ''t2'' False)
         (example_request ''alice'' ''1'' ''again.webm'' ''b'')
         (example_state [(1, ''a''), (2, ''a''), (3, ''a''), (4, ''a'')]
            [''alice'' \<mapsto> [1, 0]] [(''alice'', example_entry ''alice'' 4)])) = Inl Server_error \<and>
   registry (snd (enroll_speaker (example_env Written example_extract ''t2'' False)
         (example_request ''alice'' ''1'' ''again.webm'' ''b'')
         (example_state [(1, ''a''), (2, ''a''), (3, ''a''), (4, ''a'')]
            [''alice'' \<mapsto> [1, 0]] [(''alice'', example_entry ''alice'' 4)]))) =
     [(''alice'', example_entry ''alice'' 4)] \<and>
   embeddings (snd (enroll_speaker (example_env Written example_extract ''t2'' False)
         (example_request ''alice'' ''1'' ''again.webm'' ''b'')
         (example_state [(1, ''a''), (2, ''a''), (3, ''a''), (4, ''a'')]
            [''alice'' \<mapsto> [1, 0]] [(''alice'', example_entry ''alice'' 4)]))) ''alice'' =
     Some [3 / 4, 1 / 4] \<and>
   identify [0, 1] (example_state [(1, ''a''), (2, ''a''), (3, ''a''), (4, ''a'')]
            [''alice'' \<mapsto> [1, 0]] [(''alice'', example_entry ''alice'' 4)]) =
     Inr \<lparr>predicted = Some ''Unknown'', confidence = 0,
          all_similarities = Some [''alice'' \<mapsto> 0]\<rparr> \<and>
   identify [0, 1] (snd (enroll_speaker (example_env Written example_extract ''t2'' False)
         (example_request ''alice'' ''1'' ''again.webm'' ''b'')
         (example_state [(1, ''a''), (2, ''a''), (3, ''a''), (4, ''a'')]
            [''alice'' \<mapsto> [1, 0]] [(''alice'', example_entry ''alice'' 4)]))) =
     Inr \<lparr>predicted = Some ''Unknown'', confidence = 1 / 4,
          all_similarities = Some [''alice'' \<mapsto> 1 / 4]\<rparr> \<and>
   fst (enroll_speaker
         ((example_env Written example_extract ''t2'' False)\<lparr>registry_truncated := True\<rparr>)
         (example_request ''alice'' ''1'' ''again.webm'' ''b'')
         (example_state [(1, ''a''), (2, ''a''), (3, ''a''), (4, ''a'')]
            [''alice'' \<mapsto> [1, 0]] [(''alice'', example_entry ''alice'' 4)])) = Inl Server_error \<and>
   registry_file (snd (enroll_speaker
         ((example_env Written example_extract ''t2'' False)\<lparr>registry_truncated := True\<rparr>)
         (example_request ''alice'' ''1'' ''again.webm'' ''b'')
         (example_state [(1, ''a''), (2, ''a''), (3, ''a''), (4, ''a'')]
            [''alice'' \<mapsto> [1, 0]] [(''alice'', example_entry ''alice'' 4)]))) = Unparsable \<and>
   identify [0, 1] (snd (enroll_speaker
         ((example_env Written example_extract ''t2'' False)\<lparr>registry_truncated := True\<rparr>)
         (example_request ''alice'' ''1'' ''again.webm'' ''b'')
         (example_state [(1, ''a''), (2, ''a''), (3, ''a''), (4, ''a'')]
            [''alice'' \<mapsto> [1, 0]] [(''alice'', example_entry ''alice'' 4)]))) = Inl Server_error"
proof -
  let ?e = "example_env Written example_extract ''t2'' False"
  let ?req = "example_request ''alice'' ''1'' ''again.webm'' ''b''"
  let ?st = "example_state [(1, ''a''), (2, ''a''), (3, ''a''), (4, ''a'')]
            [''alice'' \<mapsto> [1, 0]] [(''alice'', example_entry ''alice'' 4)]"
  have r: "enroll_speaker ?e ?req ?st =
     (Inl Server_error,
      example_state [(1, ''b''), (2, ''a''), (3, ''a''), (4, ''a'')]
        [''alice'' \<mapsto> [3 / 4, 1 / 4]] [(''alice'', example_entry ''alice'' 4)])"
    by (simp add: commit_defs example_defs request_defs fun_eq_iff)
  have t: "enroll_speaker (?e\<lparr>registry_truncated := True\<rparr>) ?req ?st =
     (Inl Server_error,
      (example_state [(1, ''b''), (2, ''a''), (3, ''a''), (4, ''a'')]
        [''alice'' \<mapsto> [3 / 4, 1 / 4]] [(''alice'', example_entry ''alice'' 4)])
        \<lparr>registry_file := Unparsable\<rparr>)"
    by (simp add: commit_defs example_defs request_defs fun_eq_iff)
  show ?thesis
    unfolding r t
    by (simp add: identify_def compute_similarity_def SIMILARITY_THRESHOLD_def example_state_def
        registry_def load_registry_def)
qed

subsection \<open>Submissions after a completed enrollment\<close>

lemma enroll_Inr_valid:
  assumes "enroll_speaker e req st = (Inr r, st')"
  shows "valid_request req"
  using assms
  by (auto simp: enroll_speaker_def valid_request_def request_username_def request_clip_def
      Let_def split: if_splits option.splits)

















subsection \<open>The registry after each operation that writes it\<close>

lemma set_update_subset: "set (AList.update k v al) \<subseteq> insert (k, v) (set al)"
  by (induction al) auto

lemma registry_ok_update:
  assumes "registry_ok reg" and "1 \<le> clips_count en" and "clips_count en \<le> REQUIRED_CLIPS"
  shows "registry_ok (AList.update u en reg)"
  using assms set_update_subset [of u en reg]
  by (auto simp: registry_ok_def distinct_update list_all_iff)

lemma set_delete_subset: "set (AList.delete k al) \<subseteq> set al"
  by (auto simp: AList.delete_eq)

lemma registry_ok_delete: "registry_ok reg \<Longrightarrow> registry_ok (AList.delete u reg)"
  using set_delete_subset [of u reg]
  by (auto simp: registry_ok_def distinct_delete list_all_iff)

lemma registry_ok_save:
  assumes "registry_ok reg" and "registry_ok (registry st)"
  shows "registry_ok (registry (snd (save_registry e reg st)))"
  using assms by (simp add: save_registry_def registry_def registry_ok_def)

lemma registry_embeddings_update: "registry (st\<lparr>embeddings := m\<rparr>) = registry st"
  by (simp add: registry_def)

lemma load_registry_embeddings_update: "load_registry (st\<lparr>embeddings := m\<rparr>) = load_registry st"
  by (simp add: load_registry_def)

lemma load_registry_registry: "load_registry st = Some reg \<Longrightarrow> registry st = reg"
  by (simp add: load_registry_def registry_def split: registry_file.splits)

lemma commit_Inr:
  assumes "commit e u st = (Inr r, st')"
  shows "\<exists>avg reg. np_mean (clip_embeddings e (enrollments st u)) = Some avg \<and>
           clip_embeddings e (enrollments st u) \<noteq> [] \<and> registry_writable e \<and>
           registry_file st = Parsed reg \<and>
           st' = st\<lparr>embeddings := (embeddings st)(u \<mapsto> avg),
                    registry_file := Parsed (AList.update u
                      \<lparr>enrolled_date = now e,
                       clips_count = length (clip_embeddings e (enrollments st u)),
                       embedding_file = u @ ''.npy'', migrated_from = None\<rparr> reg)\<rparr>"
proof -
  from assms have ne: "clip_embeddings e (enrollments st u) \<noteq> []"
    by (auto simp: commit_def Let_def split: if_splits)
  with assms obtain avg where m: "np_mean (clip_embeddings e (enrollments st u)) = Some avg"
    by (cases "np_mean (clip_embeddings e (enrollments st u))") (auto simp: commit_def Let_def)
  from assms show ?thesis
    unfolding commit_success [OF m] using ne m
    by (cases "registry_file st") (auto split: if_splits)
qed

lemma commit_registry_ok:
  assumes "registry_ok (registry st)"
  shows "registry_ok (registry (snd (commit e u st)))"
proof (cases "np_mean (clip_embeddings e (enrollments st u))")
  case None
  then show ?thesis
    using assms by (simp add: commit_def Let_def)
next
  case (Some avg)
  then have ne: "clip_embeddings e (enrollments st u) \<noteq> []"
    by (auto simp: np_mean_def)
  then have "1 \<le> length (clip_embeddings e (enrollments st u))"
    by (cases "clip_embeddings e (enrollments st u)") simp_all
  then have "registry_ok (AList.update u
      \<lparr>enrolled_date = now e, clips_count = length (clip_embeddings e (enrollments st u)),
       embedding_file = u @ ''.npy'', migrated_from = None\<rparr> (registry st))"
    using assms by (intro registry_ok_update) (simp_all add: length_clip_embeddings)
  then show ?thesis
    unfolding commit_success [OF Some] using assms
    by (cases "registry_file st") (auto simp: registry_def registry_ok_def)
qed

lemma enroll_registry:
  "registry (snd (enroll_speaker e req st)) = registry st \<or>
   (\<exists>w. registry (snd (enroll_speaker e req st)) =
      registry (snd (commit e (request_username req)
        (store_clip (request_username req) (request_clip req) w st))))"
  by (auto simp: enroll_speaker_def Let_def request_username_def request_clip_def
      store_clip_registry split: option.splits prod.splits)

lemma enroll_registry_ok:
  assumes "registry_ok (registry st)"
  shows "registry_ok (registry (snd (enroll_speaker e req st)))"
proof -
  have "\<And>w. registry_ok (registry (snd (commit e (request_username req)
        (store_clip (request_username req) (request_clip req) w st))))"
    by (rule commit_registry_ok) (simp add: store_clip_registry assms)
  with enroll_registry [of e req st] assms show ?thesis
    by auto
qed

lemma length_map_filter_le: "length (List.map_filter f xs) \<le> length xs"
  by (induction xs) (auto simp: List.map_filter_simps split: option.splits)

lemma migrate_True:
  assumes "migrate_speaker e name (Some listing) st = (Some True, st')"
  defines "clips \<equiv> take CLIPS_TO_USE (filter (\<lambda>f. endswith (fst f) ''.wav'') listing)"
  defines "embs \<equiv> List.map_filter (extract_embedding e) (map snd clips)"
  shows "\<exists>avg. np_mean embs = Some avg \<and> embs \<noteq> [] \<and>
           embeddings st' = (embeddings st)(lower name \<mapsto> avg) \<and>
           registry st' = AList.update (lower name)
             \<lparr>enrolled_date = now e, clips_count = length embs,
              embedding_file = lower name @ ''.npy'', migrated_from = Some name\<rparr> (registry st)"
  using assms(1) unfolding clips_def embs_def
  by (auto simp: migrate_speaker_def Let_def save_registry_def load_registry_def registry_def
      split: if_splits option.splits registry_file.splits)

lemma migrate_registry:
  "registry (snd (migrate_speaker e name src st)) = registry st \<or>
   registry (snd (migrate_speaker e name src st)) = [] \<or>
   (\<exists>listing. src = Some listing \<and> fst (migrate_speaker e name src st) = Some True)"
  by (auto simp: migrate_speaker_def Let_def save_registry_def load_registry_def registry_def
      split: if_splits option.splits registry_file.splits)

lemma migrate_registry_ok:
  assumes "registry_ok (registry st)"
  shows "registry_ok (registry (snd (migrate_speaker e name src st)))"
proof -
  from migrate_registry [of e name src st] consider
    "registry (snd (migrate_speaker e name src st)) = registry st" |
    "registry (snd (migrate_speaker e name src st)) = []" |
    listing where "src = Some listing" "fst (migrate_speaker e name src st) = Some True"
    by blast
  then show ?thesis
  proof cases
    case 1
    with assms show ?thesis by simp
  next
    case 2
    then show ?thesis by (simp add: registry_ok_def)
  next
    case 3
    let ?embs = "List.map_filter (extract_embedding e)
        (map snd (take CLIPS_TO_USE (filter (\<lambda>f. endswith (fst f) ''.wav'') listing)))"
    from 3 have "migrate_speaker e name (Some listing) st =
        (Some True, snd (migrate_speaker e name src st))"
      by (metis prod.collapse)
    from migrate_True [OF this] obtain avg where
      ne: "?embs \<noteq> []" and
      reg: "registry (snd (migrate_speaker e name src st)) = AList.update (lower name)
             \<lparr>enrolled_date = now e, clips_count = length ?embs,
              embedding_file = lower name @ ''.npy'', migrated_from = Some name\<rparr> (registry st)"
      by auto
    from ne have "1 \<le> length ?embs"
      by (cases ?embs) simp_all
    moreover have "length ?embs \<le> REQUIRED_CLIPS"
      using length_map_filter_le [of "extract_embedding e"
          "map snd (take CLIPS_TO_USE (filter (\<lambda>f. endswith (fst f) ''.wav'') listing))"]
      by (simp add: CLIPS_TO_USE_def REQUIRED_CLIPS_def)
    ultimately show ?thesis
      unfolding reg using assms by (intro registry_ok_update) simp_all
  qed
qed

lemma delete_registry_ok:
  assumes "registry_ok (registry st)"
  shows "registry_ok (registry (snd (delete_user e name st)))"
proof (cases "registry_file st")
  case (Parsed reg)
  with assms have "registry_ok reg"
    by (simp add: registry_def)
  then have "registry_ok (AList.delete (lower (strip name)) reg)"
    by (rule registry_ok_delete)
  with Parsed \<open>registry_ok reg\<close> show ?thesis
    by (auto simp: delete_user_def Let_def save_registry_def load_registry_def registry_def
        registry_ok_def)
next
  case Unparsable
  with assms show ?thesis
    by (simp add: delete_user_def Let_def load_registry_def)
qed

lemma enroll_complete_entry:
  assumes "enroll_speaker e req st = (Inr r, st')" and "enrollment_complete r"
  shows "\<exists>en. map_of (registry st') (request_username req) = Some en \<and>
           clips_count en = length (clip_embeddings e (enrollments st' (request_username req))) \<and>
           1 \<le> clips_count en \<and> clips_count en \<le> REQUIRED_CLIPS"
proof -
  have v: "valid_request req"
    using assms(1) by (rule enroll_Inr_valid)
  then obtain upl where upl: "audio_file req = Some upl"
    by (auto simp: valid_request_def split: option.splits)
  obtain success w where sv: "save_uploaded_and_convert e upl = (success, w)"
    by (cases "save_uploaded_and_convert e upl")
  let ?u = "request_username req"
  let ?s1 = "store_clip ?u (request_clip req) w st"
  note eq = enroll_speaker_valid [OF v upl sv, of st]
  from eq assms have "commit e ?u ?s1 = (Inr r, st')"
    by (auto simp: Let_def split: if_splits)
  from commit_Inr [OF this] obtain avg reg where
    ne: "clip_embeddings e (enrollments ?s1 ?u) \<noteq> []" and
    st': "st' = ?s1\<lparr>embeddings := (embeddings ?s1)(?u \<mapsto> avg),
                    registry_file := Parsed (AList.update ?u
                      \<lparr>enrolled_date = now e,
                       clips_count = length (clip_embeddings e (enrollments ?s1 ?u)),
                       embedding_file = ?u @ ''.npy'', migrated_from = None\<rparr> reg)\<rparr>"
    by auto
  from ne have "1 \<le> length (clip_embeddings e (enrollments ?s1 ?u))"
    by (cases "clip_embeddings e (enrollments ?s1 ?u)") simp_all
  then show ?thesis
    by (simp add: st' registry_def update_conv' length_clip_embeddings)
qed


text \<open>
  C9. The registry is written by the commit of \<^verbatim>\<open>/enroll\<close>, by \<^verbatim>\<open>migrate_speaker\<close>
  and by \<^verbatim>\<open>/delete-user\<close>, and it starts empty. The empty registry has pairwise
  different keys and counts between 1 and \<open>REQUIRED_CLIPS\<close>, and each of the three
  operations keeps both properties. The entry a completed enrollment writes has as
  \<open>clips_count\<close> the number of slots 1 to 4 that hold a clip from which an embedding
  was extracted; the entry a migration writes has the number of the first
  \<open>CLIPS_TO_USE\<close> \<^verbatim>\<open>.wav\<close> files from which an embedding was extracted; both numbers
  lie between 1 and \<open>REQUIRED_CLIPS\<close>. A registry file that cannot be parsed holds no
  entry.
\<close>

theorem registry_invariant:
  assumes "registry_ok (registry st)"
  shows "registry_ok [] \<and>
         registry_ok (registry (snd (enroll_speaker e req st))) \<and>
         registry_ok (registry (snd (migrate_speaker e name src st))) \<and>
         registry_ok (registry (snd (delete_user e name st))) \<and>
         (\<forall>r st'. enroll_speaker e req st = (Inr r, st') \<and> enrollment_complete r \<longrightarrow>
            (\<exists>en. map_of (registry st') (request_username req) = Some en \<and>
                  clips_count en =
                    length (List.map_filter
                      (\<lambda>i. Option.bind (map_of (enrollments st' (request_username req)) i)
                              (extract_embedding e)) [1, 2, 3, 4]) \<and>
                  1 \<le> clips_count en \<and> clips_count en \<le> REQUIRED_CLIPS)) \<and>
         (\<forall>listing st'. migrate_speaker e name (Some listing) st = (Some True, st') \<longrightarrow>
            (\<exists>en. map_of (registry st') (lower name) = Some en \<and>
                  clips_count en =
                    length (List.map_filter (extract_embedding e)
                      (map snd (take CLIPS_TO_USE
                        (filter (\<lambda>f. endswith (fst f) ''.wav'') listing)))) \<and>
                  1 \<le> clips_count en \<and> clips_count en \<le> REQUIRED_CLIPS))"
proof (intro conjI allI impI)
  show "registry_ok []"
    by (simp add: registry_ok_def)
  show "registry_ok (registry (snd (enroll_speaker e req st)))"
    using assms by (rule enroll_registry_ok)
  show "registry_ok (registry (snd (migrate_speaker e name src st)))"
    using assms by (rule migrate_registry_ok)
  show "registry_ok (registry (snd (delete_user e name st)))"
    using assms by (rule delete_registry_ok)
next
  fix r st'
  assume "enroll_speaker e req st = (Inr r, st') \<and> enrollment_complete r"
  then show "\<exists>en. map_of (registry st') (request_username req) = Some en \<and>
                  clips_count en =
                    length (List.map_filter
                      (\<lambda>i. Option.bind (map_of (enrollments st' (request_username req)) i)
                              (extract_embedding e)) [1, 2, 3, 4]) \<and>
                  1 \<le> clips_count en \<and> clips_count en \<le> REQUIRED_CLIPS"
    using enroll_complete_entry [of e req st r st']
    by (simp add: clip_embeddings_slots)
next
  fix listing st'
  let ?embs = "List.map_filter (extract_embedding e)
                 (map snd (take CLIPS_TO_USE (filter (\<lambda>f. endswith (fst f) ''.wav'') listing)))"
  assume "migrate_speaker e name (Some listing) st = (Some True, st')"
  from migrate_True [OF this] obtain avg where
    ne: "?embs \<noteq> []" and
    reg: "registry st' = AList.update (lower name)
             \<lparr>enrolled_date = now e, clips_count = length ?embs,
              embedding_file = lower name @ ''.npy'', migrated_from = Some name\<rparr> (registry st)"
    by auto
  from ne have "1 \<le> length ?embs"
    by (cases ?embs) simp_all
  moreover have "length ?embs \<le> REQUIRED_CLIPS"
    using length_map_filter_le [of "extract_embedding e"
        "map snd (take CLIPS_TO_USE (filter (\<lambda>f. endswith (fst f) ''.wav'') listing))"]
    by (simp add: CLIPS_TO_USE_def REQUIRED_CLIPS_def)
  ultimately show "\<exists>en. map_of (registry st') (lower name) = Some en \<and>
                  clips_count en = length ?embs \<and>
                  1 \<le> clips_count en \<and> clips_count en \<le> REQUIRED_CLIPS"
    by (simp add: reg update_conv')
qed

theorem registry_invariant_witness:
  "registry_ok (registry (snd (enroll_speaker (example_env Written example_extract ''t1'' True)
     (example_request ''alice'' ''4'' ''d.webm'' ''a'')
     (example_state [(1, ''a''), (2, ''b''), (3, ''q'')] [''bob'' \<mapsto> [0, 1]]
        [(''bob'', example_entry ''bob'' 2)])))) \<and>
   registry_ok (registry (snd (migrate_speaker (example_env Written example_extract ''t1'' True)
     ''Bob'' (Some [(''one.wav'', ''b''), (''notes.txt'', ''q''), (''two.wav'', ''a'')])
     (example_state [(1, ''a''), (2, ''b''), (3, ''q'')] [''bob'' \<mapsto> [0, 1]]
        [(''bob'', example_entry ''bob'' 2)])))) \<and>
   registry_ok (registry (snd (delete_user (example_env Written example_extract ''t1'' True)
     ''Bob''
     (example_state [(1, ''a''), (2, ''b''), (3, ''q'')] [''bob'' \<mapsto> [0, 1]]
        [(''bob'', example_entry ''bob'' 2)]))))"
proof -
  let ?st = "example_state [(1, ''a''), (2, ''b''), (3, ''q'')] [''bob'' \<mapsto> [0, 1]]
        [(''bob'', example_entry ''bob'' 2)]"
  have h: "registry_ok (registry ?st)"
    by (simp add: registry_ok_def example_defs REQUIRED_CLIPS_def)
  show ?thesis
    using registry_invariant [OF h, where e = "example_env Written example_extract ''t1'' True"
        and req = "example_request ''alice'' ''4'' ''d.webm'' ''a''" and name = "''Bob''"
        and src = "Some [(''one.wav'', ''b''), (''notes.txt'', ''q''), (''two.wav'', ''a'')]"]
    by simp
qed

subsection \<open>The stored embedding is the mean of the extracted ones\<close>

text \<open>
  C1. Let \<open>vs\<close> be the embeddings extracted at a commit, a list of \<open>k \<ge> 1\<close> vectors of
  one length \<open>d\<close>, and let the registry be read and written: the registry file can be
  parsed and \<^verbatim>\<open>save_registry\<close> succeeds.

  In \<^verbatim>\<open>/enroll\<close>, for a request that passes the checks, whose upload is saved and that
  finds \<open>REQUIRED_CLIPS\<close> files in the folder, \<open>vs\<close> is what slots 1 to 4, in this
  order, yield: a slot without a file and a clip whose extraction fails yield nothing.
  The request is answered with \<^verbatim>\<open>enrollment_complete\<close> true, and the embedding stored for
  the user has length \<open>d\<close> and, at every position \<open>j\<close>, the sum of the \<open>j\<close>-th
  components of the vectors of \<open>vs\<close> divided by \<open>k\<close>; \<open>k\<close> is at most \<open>REQUIRED_CLIPS\<close>
  and is the \<open>clips_count\<close> of the user's registry entry.

  In \<^verbatim>\<open>migrate_speaker\<close>, \<open>vs\<close> is what the first \<open>CLIPS_TO_USE\<close> \<^verbatim>\<open>.wav\<close> files of the
  speaker's folder yield, and the same holds with \<open>k\<close> at most \<open>CLIPS_TO_USE\<close>.
\<close>

theorem fingerprint_is_mean:
  fixes e req st upl w vs d name listing
  defines "u \<equiv> request_username req"
  defines "st1 \<equiv> store_clip (request_username req) (request_clip req) (Some w) st"
  defines "v \<equiv> lower name"
  assumes "vs \<noteq> []" and "\<forall>x\<in>set vs. length x = d" and "registry_writable e"
    and "registry_file st \<noteq> Unparsable"
  shows
    "(valid_request req \<and> audio_file req = Some upl \<and>
      save_uploaded_and_convert e upl = (True, Some w) \<and>
      REQUIRED_CLIPS \<le> length (enrollments st1 u) \<and>
      vs = List.map_filter
             (\<lambda>i. Option.bind (map_of (enrollments st1 u) i) (extract_embedding e)) [1, 2, 3, 4]
      \<longrightarrow>
        fst (enroll_speaker e req st) =
          Inr \<lparr>clips_received = length (enrollments st1 u), required_clips = REQUIRED_CLIPS,
               enrollment_complete = True\<rparr> \<and>
        (\<exists>avg. embeddings (snd (enroll_speaker e req st)) u = Some avg \<and> length avg = d \<and>
           (\<forall>j<d. avg ! j = sum_list (map (\<lambda>x. x ! j) vs) / real (length vs))) \<and>
        1 \<le> length vs \<and> length vs \<le> REQUIRED_CLIPS \<and>
        map_of (registry (snd (enroll_speaker e req st))) u =
          Some \<lparr>enrolled_date = now e, clips_count = length vs,
                embedding_file = u @ ''.npy'', migrated_from = None\<rparr>) \<and>
     (vs = List.map_filter (extract_embedding e)
             (map snd (take CLIPS_TO_USE (filter (\<lambda>f. endswith (fst f) ''.wav'') listing)))
      \<longrightarrow>
        fst (migrate_speaker e name (Some listing) st) = Some True \<and>
        (\<exists>avg. embeddings (snd (migrate_speaker e name (Some listing) st)) v = Some avg \<and>
           length avg = d \<and>
           (\<forall>j<d. avg ! j = sum_list (map (\<lambda>x. x ! j) vs) / real (length vs))) \<and>
        1 \<le> length vs \<and> length vs \<le> CLIPS_TO_USE \<and>
        map_of (registry (snd (migrate_speaker e name (Some listing) st))) v =
          Some \<lparr>enrolled_date = now e, clips_count = length vs,
                embedding_file = v @ ''.npy'', migrated_from = Some name\<rparr>)"
proof (intro conjI impI)
  from np_mean_Some [OF assms(4,5)] obtain avg where
    m: "np_mean vs = Some avg" and l: "length avg = d" and
    c: "\<forall>j<d. avg ! j = sum_list (map (\<lambda>x. x ! j) vs) / real (length vs)"
    by blast
  from assms(4) have one: "1 \<le> length vs"
    by (cases vs) simp_all
  from assms(7) obtain reg where reg: "registry_file st = Parsed reg"
    by (cases "registry_file st") simp_all
  {
    assume a: "valid_request req \<and> audio_file req = Some upl \<and>
      save_uploaded_and_convert e upl = (True, Some w) \<and>
      REQUIRED_CLIPS \<le> length (enrollments st1 u) \<and>
      vs = List.map_filter
             (\<lambda>i. Option.bind (map_of (enrollments st1 u) i) (extract_embedding e)) [1, 2, 3, 4]"
    then have vs: "clip_embeddings e (enrollments st1 u) = vs"
      by (simp add: clip_embeddings_slots)
    from a have "enroll_speaker e req st = commit e u st1"
      using enroll_speaker_valid [of req upl e True "Some w" st]
      by (simp add: Let_def u_def st1_def)
    moreover have "registry_file st1 = Parsed reg"
      by (simp add: st1_def store_clip_registry_file reg)
    ultimately have r: "enroll_speaker e req st =
        (Inr \<lparr>clips_received = length (enrollments st1 u), required_clips = REQUIRED_CLIPS,
              enrollment_complete = True\<rparr>,
         st1\<lparr>embeddings := (embeddings st1)(u \<mapsto> avg),
             registry_file := Parsed (AList.update u
               \<lparr>enrolled_date = now e, clips_count = length vs,
                embedding_file = u @ ''.npy'', migrated_from = None\<rparr> reg)\<rparr>)"
      using commit_success [of e st1 u avg] m vs assms(6) by simp
    show "fst (enroll_speaker e req st) =
          Inr \<lparr>clips_received = length (enrollments st1 u), required_clips = REQUIRED_CLIPS,
               enrollment_complete = True\<rparr>"
      by (simp add: r)
    show "\<exists>avg. embeddings (snd (enroll_speaker e req st)) u = Some avg \<and> length avg = d \<and>
           (\<forall>j<d. avg ! j = sum_list (map (\<lambda>x. x ! j) vs) / real (length vs))"
      using l c by (simp add: r)
    show "1 \<le> length vs"
      by (rule one)
    show "length vs \<le> REQUIRED_CLIPS"
      using length_clip_embeddings [of e "enrollments st1 u"] by (simp add: vs)
    show "map_of (registry (snd (enroll_speaker e req st))) u =
          Some \<lparr>enrolled_date = now e, clips_count = length vs,
                embedding_file = u @ ''.npy'', migrated_from = None\<rparr>"
      by (simp add: r registry_def update_conv')
  }
  {
    let ?clips = "take CLIPS_TO_USE (filter (\<lambda>f. endswith (fst f) ''.wav'') listing)"
    assume a: "vs = List.map_filter (extract_embedding e) (map snd ?clips)"
    with assms(4) have "?clips \<noteq> []"
      by (cases ?clips) (simp_all add: List.map_filter_simps)
    then have ne: "filter (\<lambda>f. endswith (fst f) ''.wav'') listing \<noteq> []"
      by auto
    let ?s1 = "st\<lparr>enrollments := (enrollments st)(v :=
                 copy_clips (zip [1..<length ?clips + 1] (map snd ?clips)) (enrollments st v))\<rparr>"
    have r: "migrate_speaker e name (Some listing) st =
        (Some True,
         ?s1\<lparr>embeddings := (embeddings st)(v \<mapsto> avg),
             registry_file := Parsed (AList.update v
               \<lparr>enrolled_date = now e, clips_count = length vs,
                embedding_file = v @ ''.npy'', migrated_from = Some name\<rparr> reg)\<rparr>)"
      using ne assms(4,6) m a [symmetric] reg
      by (simp add: migrate_speaker_def Let_def v_def load_registry_def save_registry_def
          del: upt_Suc)
    show "fst (migrate_speaker e name (Some listing) st) = Some True"
      by (simp add: r)
    show "\<exists>avg. embeddings (snd (migrate_speaker e name (Some listing) st)) v = Some avg \<and>
           length avg = d \<and>
           (\<forall>j<d. avg ! j = sum_list (map (\<lambda>x. x ! j) vs) / real (length vs))"
      using l c by (simp add: r)
    show "1 \<le> length vs"
      by (rule one)
    show "length vs \<le> CLIPS_TO_USE"
      using length_map_filter_le [of "extract_embedding e" "map snd ?clips"]
      by (simp add: a)
    show "map_of (registry (snd (migrate_speaker e name (Some listing) st))) v =
          Some \<lparr>enrolled_date = now e, clips_count = length vs,
                embedding_file = v @ ''.npy'', migrated_from = Some name\<rparr>"
      by (simp add: r registry_def update_conv')
  }
qed


theorem fingerprint_is_mean_witness:
  "fst (enroll_speaker (example_env Written example_extract ''t1'' True)
         (example_request ''alice'' ''4'' ''d.webm'' ''q'')
         (example_state [(1, ''a''), (2, ''b''), (3, ''q'')] Map.empty [])) =
     Inr \<lparr>clips_received = 4, required_clips = REQUIRED_CLIPS, enrollment_complete = True\<rparr> \<and>
   (\<exists>avg. embeddings (snd (enroll_speaker (example_env Written example_extract ''t1'' True)
         (example_request ''alice'' ''4'' ''d.webm'' ''q'')
         (example_state [(1, ''a''), (2, ''b''), (3, ''q'')] Map.empty []))) ''alice'' = Some avg \<and>
      length avg = 2 \<and> avg ! 0 = 1 / 2 \<and> avg ! 1 = 1 / 2) \<and>
   fst (migrate_speaker (example_env Written example_extract ''t1'' True) ''Bob''
         (Some [(''one.wav'', ''a''), (''notes.txt'', ''q''), (''two.wav'', ''b'')])
         (example_state [(1, ''a''), (2, ''b''), (3, ''q'')] Map.empty [])) = Some True \<and>
   (\<exists>avg. embeddings (snd (migrate_speaker (example_env Written example_extract ''t1'' True) ''Bob''
         (Some [(''one.wav'', ''a''), (''notes.txt'', ''q''), (''two.wav'', ''b'')])
         (example_state [(1, ''a''), (2, ''b''), (3, ''q'')] Map.empty []))) ''bob'' = Some avg \<and>
      length avg = 2 \<and> avg ! 0 = 1 / 2 \<and> avg ! 1 = 1 / 2)"
proof -
  let ?e = "example_env Written example_extract ''t1'' True"
  let ?req = "example_request ''alice'' ''4'' ''d.webm'' ''q''"
  let ?st = "example_state [(1, ''a''), (2, ''b''), (3, ''q'')] Map.empty []"
  let ?upl = "\<lparr>filename = ''d.webm'', data = ''q''\<rparr>"
  let ?listing = "[(''one.wav'', ''a''), (''notes.txt'', ''q''), (''two.wav'', ''b'')]"
  let ?vs = "[[1, 0], [0, 1]] :: vec list"
  have u: "request_username ?req = ''alice''" and n: "request_clip ?req = 4"
    and lw: "lower ''Bob'' = ''bob''"
    by (simp_all add: example_defs request_defs)
  have f: "enrollments (store_clip ''alice'' 4 (Some ''q'') ?st) ''alice'' =
             [(1, ''a''), (2, ''b''), (3, ''q''), (4, ''q'')]"
    by (simp add: store_clip_folder) (simp add: example_defs)
  have h1: "?vs \<noteq> []" and h2: "\<forall>x\<in>set ?vs. length x = 2"
    by simp_all
  have h3: "registry_writable ?e"
    by (simp add: example_defs)
  have h4: "registry_file ?st \<noteq> Unparsable"
    by (simp add: example_defs)
  have a1: "valid_request ?req \<and> audio_file ?req = Some ?upl \<and>
      save_uploaded_and_convert ?e ?upl = (True, Some ''q'') \<and>
      REQUIRED_CLIPS \<le> length (enrollments
        (store_clip (request_username ?req) (request_clip ?req) (Some ''q'') ?st)
        (request_username ?req)) \<and>
      ?vs = List.map_filter
             (\<lambda>i. Option.bind (map_of (enrollments
                (store_clip (request_username ?req) (request_clip ?req) (Some ''q'') ?st)
                (request_username ?req)) i) (extract_embedding ?e)) [1, 2, 3, 4]"
    unfolding u n f
    by (simp add: example_defs request_defs List.map_filter_simps)
  have a2: "?vs = List.map_filter (extract_embedding ?e)
             (map snd (take CLIPS_TO_USE (filter (\<lambda>f. endswith (fst f) ''.wav'') ?listing)))"
    by (simp add: example_defs endswith_def CLIPS_TO_USE_def List.map_filter_simps)
  have s: "sum_list (map (\<lambda>x. x ! j) ?vs) / real (length ?vs) = 1 / 2" if "j < 2" for j
  proof -
    from that have "j = 0 \<or> j = 1" by auto
    then show ?thesis by auto
  qed
  note t = fingerprint_is_mean [OF h1 h2 h3 h4, where req = ?req and upl = ?upl
      and w = "''q''" and name = "''Bob''" and listing = ?listing]
  from t a1 have p1: "fst (enroll_speaker ?e ?req ?st) =
      Inr \<lparr>clips_received = 4, required_clips = REQUIRED_CLIPS, enrollment_complete = True\<rparr>"
    unfolding u n f by simp
  from t a1 obtain avg1 where
    "embeddings (snd (enroll_speaker ?e ?req ?st)) (request_username ?req) = Some avg1"
    "length avg1 = 2"
    "\<forall>j<2. avg1 ! j = sum_list (map (\<lambda>x. x ! j) ?vs) / real (length ?vs)"
    by blast
  then have p2: "\<exists>avg. embeddings (snd (enroll_speaker ?e ?req ?st)) ''alice'' = Some avg \<and>
      length avg = 2 \<and> avg ! 0 = 1 / 2 \<and> avg ! 1 = 1 / 2"
    unfolding u using s by auto
  from t a2 have p3: "fst (migrate_speaker ?e ''Bob'' (Some ?listing) ?st) = Some True"
    by blast
  from t a2 obtain avg2 where
    "embeddings (snd (migrate_speaker ?e ''Bob'' (Some ?listing) ?st)) (lower ''Bob'') = Some avg2"
    "length avg2 = 2"
    "\<forall>j<2. avg2 ! j = sum_list (map (\<lambda>x. x ! j) ?vs) / real (length ?vs)"
    by blast
  then have p4: "\<exists>avg. embeddings (snd (migrate_speaker ?e ''Bob'' (Some ?listing) ?st)) ''bob'' =
      Some avg \<and> length avg = 2 \<and> avg ! 0 = 1 / 2 \<and> avg ! 1 = 1 / 2"
    unfolding lw using s by auto
  from p1 p2 p3 p4 show ?thesis
    by blast
qed

subsection \<open>The best match\<close>

lemma match_loop_step:
  assumes "embs u = Some v" and "compute_similarity probe v = Some s"
  shows "match_loop probe embs (u # us) (bm, bs, sims) =
           match_loop probe embs us
             (if s > bs then Some u else bm, max bs s, sims(u \<mapsto> s))"
  using assms by (simp add: max_def)

lemma first_max_single: "first_max score [u] 0"
  by (simp add: first_max_def)

lemma first_max_Cons_head:
  assumes "first_max score us i" and "score (us ! i) \<le> score u"
  shows "first_max score (u # us) 0"
  using assms by (auto simp: first_max_def list_all_iff)

lemma first_max_Cons_tail:
  assumes "first_max score us i" and "score u < score (us ! i)"
  shows "first_max score (u # us) (Suc i)"
  using assms by (auto simp: first_max_def list_all_iff)

lemma match_loop_result:
  assumes "keys \<noteq> []"
    and "\<forall>u\<in>set keys. \<exists>v. embs u = Some v \<and> compute_similarity probe v = Some (score u)"
  shows "\<exists>i. first_max score keys i \<and>
           match_loop probe embs keys (bm, bs, sims) =
             Inr (if score (keys ! i) > bs then Some (keys ! i) else bm,
                  max bs (score (keys ! i)),
                  \<lambda>u. if u \<in> set keys then Some (score u) else sims u)"
  using assms
proof (induction keys arbitrary: bm bs sims rule: list_nonempty_induct)
  case (single u)
  then obtain v where "embs u = Some v" "compute_similarity probe v = Some (score u)"
    by auto
  then have "match_loop probe embs [u] (bm, bs, sims) =
      Inr (if score u > bs then Some u else bm, max bs (score u), sims(u \<mapsto> score u))"
    by (simp add: match_loop_step)
  moreover have "sims(u \<mapsto> score u) = (\<lambda>x. if x \<in> set [u] then Some (score x) else sims x)"
    by (auto simp: fun_eq_iff)
  ultimately show ?case
    using first_max_single [of score u] by (intro exI [of _ 0]) simp
next
  case (cons u us)
  from cons.prems obtain v where v: "embs u = Some v" "compute_similarity probe v = Some (score u)"
    by auto
  let ?bm1 = "if score u > bs then Some u else bm"
  let ?bs1 = "max bs (score u)"
  let ?sims1 = "sims(u \<mapsto> score u)"
  have step: "match_loop probe embs (u # us) (bm, bs, sims) =
                match_loop probe embs us (?bm1, ?bs1, ?sims1)"
    using v by (rule match_loop_step)
  from cons.prems have "\<forall>x\<in>set us. \<exists>v. embs x = Some v \<and>
      compute_similarity probe v = Some (score x)"
    by simp
  from cons.IH [OF this, of ?bm1 ?bs1 ?sims1] obtain i where
    fm: "first_max score us i" and
    res: "match_loop probe embs us (?bm1, ?bs1, ?sims1) =
            Inr (if score (us ! i) > ?bs1 then Some (us ! i) else ?bm1,
                 max ?bs1 (score (us ! i)),
                 \<lambda>x. if x \<in> set us then Some (score x) else ?sims1 x)"
    by blast
  have sims: "(\<lambda>x. if x \<in> set us then Some (score x) else ?sims1 x) =
              (\<lambda>x. if x \<in> set (u # us) then Some (score x) else sims x)"
    by (auto simp: fun_eq_iff)
  show ?case
  proof (cases "score (us ! i) \<le> score u")
    case True
    have "first_max score (u # us) 0"
      using fm True by (rule first_max_Cons_head)
    moreover have "match_loop probe embs (u # us) (bm, bs, sims) =
        Inr (if score ((u # us) ! 0) > bs then Some ((u # us) ! 0) else bm,
             max bs (score ((u # us) ! 0)),
             \<lambda>x. if x \<in> set (u # us) then Some (score x) else sims x)"
      unfolding step res sims using True by (auto simp: max_def)
    ultimately show ?thesis
      by blast
  next
    case False
    then have lt: "score u < score (us ! i)"
      by simp
    have "first_max score (u # us) (Suc i)"
      using fm lt by (rule first_max_Cons_tail)
    moreover have "match_loop probe embs (u # us) (bm, bs, sims) =
        Inr (if score ((u # us) ! Suc i) > bs then Some ((u # us) ! Suc i) else bm,
             max bs (score ((u # us) ! Suc i)),
             \<lambda>x. if x \<in> set (u # us) then Some (score x) else sims x)"
      unfolding step res sims using lt by (auto simp: max_def)
    ultimately show ?thesis
      by blast
  qed
qed

lemma dot_ge_minus_one:
  assumes "length a = length b"
    and "sum_list (map (\<lambda>x. x * x) a) \<le> 1" and "sum_list (map (\<lambda>x. x * x) b) \<le> (1::real)"
  shows "- 1 \<le> sum_list (map2 (*) a b)"
proof -
  have "sum_list (map2 (\<lambda>x y. (x + y) * (x + y)) a b) =
          sum_list (map (\<lambda>x. x * x) a) + 2 * sum_list (map2 (*) a b) +
          sum_list (map (\<lambda>x. x * x) b)"
    using assms(1) by (induction a b rule: list_induct2) (simp_all add: algebra_simps)
  moreover have "0 \<le> sum_list (map2 (\<lambda>x y. (x + y) * (x + y)) a b)"
    by (rule sum_list_nonneg) auto
  ultimately show ?thesis
    using assms(2,3) by linarith
qed

text \<open>
  C2. Let \<open>keys\<close> be the registered users that have an embedding file, in the
  registry's order; let there be at least one, let every such file hold an array of
  the probe's length, and let \<open>score u\<close>, the dot product of the probe with the array of
  user \<open>u\<close>, be at least \<open>-1\<close> for each of them, as it is for the vectors the matcher
  is given: the probe is an embedding of the encoder, of norm 1, the stored arrays are
  means of such embeddings, of norm at most 1, and \<open>dot_ge_minus_one\<close> bounds their dot
  product. Then the matcher answers, and there is a position \<open>i\<close> of \<open>keys\<close>, the first
  one of maximal score, such that: the prediction is the user at \<open>i\<close> when that score
  is at least \<open>SIMILARITY_THRESHOLD\<close> and \<^verbatim>\<open>Unknown\<close> otherwise; the confidence is that
  score; and the table of similarities gives the score of every user of \<open>keys\<close>.
\<close>

theorem identify_best_match:
  fixes probe st score
  defines "keys \<equiv> filter (\<lambda>u. embeddings st u \<noteq> None) (map fst (registry st))"
  assumes "keys \<noteq> []"
    and "\<forall>u\<in>set keys. \<exists>v. embeddings st u = Some v \<and> length v = length probe \<and>
           score u = sum_list (map2 (*) probe v) \<and> - 1 \<le> score u"
  shows "\<exists>i. first_max score keys i \<and>
           identify probe st =
             Inr \<lparr>predicted = (if SIMILARITY_THRESHOLD \<le> score (keys ! i) then Some (keys ! i)
                               else Some ''Unknown''),
                  confidence = score (keys ! i),
                  all_similarities =
                    Some (\<lambda>u. if u \<in> set keys then Some (score u) else None)\<rparr>"
proof -
  have ne: "registry st \<noteq> []"
    using assms(2) by (auto simp: keys_def)
  then have ld: "load_registry st = Some (registry st)"
    by (rule registry_nonempty)
  have loop: "match_loop probe (embeddings st) (map fst (registry st)) (None, - 1, Map.empty) =
              match_loop probe (embeddings st) keys (None, - 1, Map.empty)"
    unfolding keys_def by (rule match_loop_filter)
  have "\<forall>u\<in>set keys. \<exists>v. embeddings st u = Some v \<and>
          compute_similarity probe v = Some (score u)"
    using assms(3) by (fastforce simp: compute_similarity_def)
  from match_loop_result [OF assms(2) this, of None "- 1" Map.empty] obtain i where
    fm: "first_max score keys i" and
    res: "match_loop probe (embeddings st) keys (None, - 1, Map.empty) =
            Inr (if score (keys ! i) > - 1 then Some (keys ! i) else None,
                 max (- 1) (score (keys ! i)),
                 \<lambda>u. if u \<in> set keys then Some (score u) else None)"
    by blast
  from fm have "keys ! i \<in> set keys"
    by (simp add: first_max_def)
  with assms(3) have low: "- 1 \<le> score (keys ! i)"
    by blast
  have "identify probe st =
             Inr \<lparr>predicted = (if SIMILARITY_THRESHOLD \<le> score (keys ! i) then Some (keys ! i)
                               else Some ''Unknown''),
                  confidence = score (keys ! i),
                  all_similarities =
                    Some (\<lambda>u. if u \<in> set keys then Some (score u) else None)\<rparr>"
    using ne res low
    by (auto simp: identify_def ld loop SIMILARITY_THRESHOLD_def max_def)
  with fm show ?thesis
    by blast
qed

text \<open>
  An instance with a tie and a missing file: \<open>dave\<close> has no embedding file, \<open>alice\<close>
  and \<open>carol\<close> both score 1, and \<open>alice\<close>, who comes first in the registry, is the
  prediction.
\<close>

theorem identify_best_match_witness:
  "identify [1, 0]
     (example_state [] [''alice'' \<mapsto> [1, 0], ''bob'' \<mapsto> [0, 1], ''carol'' \<mapsto> [1, 0]]
        [(''bob'', example_entry ''bob'' 4), (''dave'', example_entry ''dave'' 4),
         (''alice'', example_entry ''alice'' 4), (''carol'', example_entry ''carol'' 3)]) =
   Inr \<lparr>predicted = Some ''alice'', confidence = 1,
        all_similarities = Some [''bob'' \<mapsto> 0, ''alice'' \<mapsto> 1, ''carol'' \<mapsto> 1]\<rparr>"
proof -
  let ?st = "example_state [] [''alice'' \<mapsto> [1, 0], ''bob'' \<mapsto> [0, 1], ''carol'' \<mapsto> [1, 0]]
        [(''bob'', example_entry ''bob'' 4), (''dave'', example_entry ''dave'' 4),
         (''alice'', example_entry ''alice'' 4), (''carol'', example_entry ''carol'' 3)]"
  let ?score = "\<lambda>u. if u = ''bob'' then 0 else 1 :: real"
  let ?keys = "[''bob'', ''alice'', ''carol'']"
  have k: "filter (\<lambda>u. embeddings ?st u \<noteq> None) (map fst (registry ?st)) = ?keys"
    by (simp add: example_state_def registry_def)
  have h1: "filter (\<lambda>u. embeddings ?st u \<noteq> None) (map fst (registry ?st)) \<noteq> []"
    unfolding k by simp
  have h2: "\<forall>u\<in>set (filter (\<lambda>u. embeddings ?st u \<noteq> None) (map fst (registry ?st))).
      \<exists>v. embeddings ?st u = Some v \<and>
      length v = length [1, 0 :: real] \<and> ?score u = sum_list (map2 (*) [1, 0] v) \<and>
      - 1 \<le> ?score u"
    unfolding k by (simp add: example_state_def)
  from identify_best_match [OF h1 h2] obtain i where
    fm: "first_max ?score ?keys i" and
    res: "identify [1, 0] ?st =
      Inr \<lparr>predicted = (if SIMILARITY_THRESHOLD \<le> ?score (?keys ! i) then Some (?keys ! i)
                        else Some ''Unknown''),
           confidence = ?score (?keys ! i),
           all_similarities = Some (\<lambda>u. if u \<in> set ?keys then Some (?score u) else None)\<rparr>"
    unfolding k by blast
  from fm have "i = 0 \<or> i = 1 \<or> i = 2"
    by (auto simp: first_max_def)
  with fm have i: "i = 1"
    by (auto simp: first_max_def)
  have m: "(\<lambda>u. if u \<in> set ?keys then Some (?score u) else None) =
           [''bob'' \<mapsto> 0, ''alice'' \<mapsto> 1, ''carol'' \<mapsto> 1]"
    by (auto simp: fun_eq_iff)
  show ?thesis
    unfolding res i m by (simp add: SIMILARITY_THRESHOLD_def)
qed

end
